theory Spec2Isabelle
  imports Main
begin

section \<open>Values and exceptions\<close>

text \<open>
  The values that travel through \<^verbatim>\<open>web3/providers/manager.py\<close> are what
  \<^verbatim>\<open>json.loads\<close> produces and what callers pass as \<^verbatim>\<open>params\<close>: \<^verbatim>\<open>None\<close>,
  booleans, integers, strings, lists and dicts with string keys. A dict is an association
  list in insertion order, read with \<open>map_of\<close>. Floating point numbers are outside the
  model.
\<close>

datatype json =
    JNull
  | JBool bool
  | JNum int
  | JStr string
  | JArr "json list"
  | JObj "(string \<times> json) list"

type_synonym uuid = nat

text \<open>
  Every \<^verbatim>\<open>raise\<close> of the module is a constructor. \<open>ValueError\<close> carries the
  \<^verbatim>\<open>error\<close> payload of a response (line 39 and line 65), \<open>KeyError\<close> the missing
  dict key, \<open>KeyError_request\<close> is the \<^verbatim>\<open>KeyError("Request for id:{0} not found")\<close>
  of line 56, \<open>Timeout\<close> is \<^verbatim>\<open>gevent.Timeout\<close>. \<open>External\<close> stands for whatever the
  transport or a library function outside this module raises.
\<close>

datatype error =
    ValueError json
  | KeyError string
  | KeyError_request uuid
  | TypeError
  | IndexError
  | Timeout
  | NotImplementedError
  | External string

text \<open>
  Functions of other modules (\<^verbatim>\<open>web3.utils.string\<close>, \<^verbatim>\<open>web3.utils.encoding\<close>,
  \<^verbatim>\<open>web3.utils.transactions\<close>, \<^verbatim>\<open>json\<close>, \<^verbatim>\<open>rlp\<close>) are not part of this file of the
  repository; the model takes them as parameters, each one free to raise. \<open>'t\<close> is the
  signed transaction object that \<^verbatim>\<open>rlp.encode\<close> serialises.
\<close>

record 't externals =
  force_text :: "string \<Rightarrow> error + string"
  json_loads :: "string \<Rightarrow> error + json"
  to_decimal :: "json \<Rightarrow> error + int"
  encode_hex :: "string \<Rightarrow> error + string"
  decode_hex :: "json \<Rightarrow> error + string"
  serialize_transaction :: "json \<Rightarrow> error + string"
  add_signature_to_transaction :: "string \<Rightarrow> string \<Rightarrow> error + 't"
  rlp_encode :: "'t \<Rightarrow> error + string"

text \<open>
  \<^verbatim>\<open>obj[key]\<close> with a string key: a dict answers or raises \<^verbatim>\<open>KeyError\<close>; \<^verbatim>\<open>None\<close>,
  booleans and integers are not subscriptable, strings and lists take integer indices
  only, so each of them raises \<^verbatim>\<open>TypeError\<close>.
\<close>

definition getitem :: "json \<Rightarrow> string \<Rightarrow> error + json" where
  "getitem obj key =
     (case obj of
        JObj kvs \<Rightarrow> (case map_of kvs key of Some v \<Rightarrow> Inr v | None \<Rightarrow> Inl (KeyError key))
      | _ \<Rightarrow> Inl TypeError)"

text \<open>
  Lines 38 to 41 and again lines 64 to 67:
  \<^verbatim>\<open>
  if "error" in response:
      raise ValueError(response["error"])
  return response['result']
  \<close>
  When \<^verbatim>\<open>response\<close> is not a dict, either the membership test raises
  \<^verbatim>\<open>TypeError\<close> (\<^verbatim>\<open>None\<close>, booleans, integers) or one of the two subscripts with
  a string key does (strings and lists), whatever the test answers.
\<close>

definition decode_response :: "json \<Rightarrow> error + json" where
  "decode_response response =
     (case response of
        JObj kvs \<Rightarrow>
          (if ''error'' \<in> fst ` set kvs
           then (case getitem response ''error'' of
                   Inl e \<Rightarrow> Inl e
                 | Inr payload \<Rightarrow> Inl (ValueError payload))
           else getitem response ''result'')
      | _ \<Rightarrow> Inl TypeError)"

text \<open>
  \<^verbatim>\<open>json.loads(x)\<close> at line 62 receives a Python object, not necessarily text: anything
  but a string raises \<^verbatim>\<open>TypeError\<close> before parsing starts.
\<close>

definition loads_object :: "'t externals \<Rightarrow> json \<Rightarrow> error + json" where
  "loads_object ext x = (case x of JStr s \<Rightarrow> json_loads ext s | _ \<Rightarrow> Inl TypeError)"

section \<open>RequestManager\<close>

text \<open>
  The provider is the transport: \<^verbatim>\<open>make_request(method, params)\<close> returns the raw
  response or raises, and may change the state \<open>'w\<close> of the node behind it.

  A task is the greenlet that \<^verbatim>\<open>gevent.spawn\<close> returns. Its body is
  \<^verbatim>\<open>self.request_blocking(method, params)\<close>, so what \<^verbatim>\<open>request.get()\<close> yields is
  the outcome of that call: its return value, or the exception it raised, raised again.
  The model runs the body when the task is spawned and keeps the outcome in the handle;
  \<open>duration\<close> is the time the caller of \<^verbatim>\<open>get\<close> has to wait for it, in the unit
  of \<^verbatim>\<open>timeout\<close>. Both the identifier \<^verbatim>\<open>uuid.uuid4()\<close> draws and the duration come
  from outside the program and are arguments of \<open>request_async\<close>.
\<close>

type_synonym 'w provider = "string \<Rightarrow> json list \<Rightarrow> 'w \<Rightarrow> (error + string) \<times> 'w"

record task =
  outcome :: "error + json"
  duration :: nat

record 'w request_manager =
  pending_requests :: "uuid \<rightharpoonup> task"
  provider :: "'w provider"

definition init_RequestManager :: "'w provider \<Rightarrow> 'w request_manager" where
  "init_RequestManager p = \<lparr>pending_requests = Map.empty, provider = p\<rparr>"

definition setProvider :: "'w request_manager \<Rightarrow> 'w provider \<Rightarrow> 'w request_manager" where
  "setProvider self p = self\<lparr>provider := p\<rparr>"

definition request_blocking ::
  "'t externals \<Rightarrow> 'w request_manager \<Rightarrow> string \<Rightarrow> json list \<Rightarrow> 'w \<Rightarrow> (error + json) \<times> 'w" where
  "request_blocking ext self method params w =
     (case provider self method params w of
        (Inl e, w') \<Rightarrow> (Inl e, w')
      | (Inr response_raw, w') \<Rightarrow>
          (case force_text ext response_raw of
             Inl e \<Rightarrow> (Inl e, w')
           | Inr text \<Rightarrow>
               (case json_loads ext text of
                  Inl e \<Rightarrow> (Inl e, w')
                | Inr response \<Rightarrow> (decode_response response, w'))))"

definition request_async ::
  "'t externals \<Rightarrow> 'w request_manager \<Rightarrow> uuid \<Rightarrow> nat \<Rightarrow> string \<Rightarrow> json list \<Rightarrow> 'w \<Rightarrow>
     uuid \<times> 'w request_manager \<times> 'w" where
  "request_async ext self request_id d method params w =
     (case request_blocking ext self method params w of
        (res, w') \<Rightarrow>
          (request_id,
           self\<lparr>pending_requests :=
                  (pending_requests self)(request_id \<mapsto> \<lparr>outcome = res, duration = d\<rparr>)\<rparr>,
           w'))"

text \<open>
  Lines 58 to 60. Without a timeout \<^verbatim>\<open>request.get\<close> waits for the outcome of the
  task. With one, line 59 starts a \<^verbatim>\<open>gevent.Timeout\<close> for the caller, which interrupts
  the wait when the task needs longer; the task itself goes on. What the timer does after
  the wait is over is real time and not part of the model.
\<close>

definition task_get :: "task \<Rightarrow> nat option \<Rightarrow> error + json" where
  "task_get request timeout =
     (case timeout of
        None \<Rightarrow> outcome request
      | Some t \<Rightarrow> if duration request \<le> t then outcome request else Inl Timeout)"

definition receive_blocking ::
  "'t externals \<Rightarrow> 'w request_manager \<Rightarrow> uuid \<Rightarrow> nat option \<Rightarrow>
     (error + json) \<times> 'w request_manager" where
  "receive_blocking ext self request_id timeout =
     (case pending_requests self request_id of
        None \<Rightarrow> (Inl (KeyError_request request_id), self)
      | Some request \<Rightarrow>
          (let self' = self\<lparr>pending_requests := (pending_requests self)(request_id := None)\<rparr>
           in case task_get request timeout of
                Inl e \<Rightarrow> (Inl e, self')
              | Inr response_raw \<Rightarrow>
                  (case loads_object ext response_raw of
                     Inl e \<Rightarrow> (Inl e, self')
                   | Inr response \<Rightarrow> (decode_response response, self'))))"

definition receive_async :: "'w request_manager \<Rightarrow> uuid \<Rightarrow> error + json" where
  "receive_async self request_id = Inl NotImplementedError"

text \<open>
  A caller of the manager issues a sequence of calls; \<open>run\<close> performs them in order on
  the manager and the node, dropping what each call returns.
\<close>

datatype 'w call =
    RequestBlocking string "json list"
  | RequestAsync uuid nat string "json list"
  | ReceiveBlocking uuid "nat option"
  | ReceiveAsync uuid
  | SetProvider "'w provider"

fun step :: "'t externals \<Rightarrow> 'w call \<Rightarrow> 'w request_manager \<times> 'w \<Rightarrow> 'w request_manager \<times> 'w" where
  "step ext (RequestBlocking method params) (self, w) =
     (self, snd (request_blocking ext self method params w))"
| "step ext (RequestAsync request_id d method params) (self, w) =
     snd (request_async ext self request_id d method params w)"
| "step ext (ReceiveBlocking request_id timeout) (self, w) =
     (snd (receive_blocking ext self request_id timeout), w)"
| "step ext (ReceiveAsync request_id) (self, w) = (self, w)"
| "step ext (SetProvider p) (self, w) = (setProvider self p, w)"

fun run :: "'t externals \<Rightarrow> 'w call list \<Rightarrow> 'w request_manager \<times> 'w \<Rightarrow> 'w request_manager \<times> 'w" where
  "run ext [] s = s"
| "run ext (c # cs) s = run ext cs (step ext c s)"

fun issues :: "uuid \<Rightarrow> 'w call \<Rightarrow> bool" where
  "issues i (RequestAsync request_id d method params) = (request_id = i)"
| "issues i c = False"

section \<open>ManagerWrapper\<close>

text \<open>
  A manager-like object is used through its \<^verbatim>\<open>request_blocking\<close>: a call may fail and
  may change the node. \<open>request_blocking ext m\<close> of a \<open>RequestManager\<close> \<open>m\<close> is one.
  The wrapper and its subclasses hold the wrapped manager and, for
  \<^verbatim>\<open>DelegatedSigningManager\<close>, the signature manager; \<open>signature_manager\<close> is \<open>None\<close>
  for an object of class \<^verbatim>\<open>BaseSendRawTransactionMixin\<close> itself.
\<close>

type_synonym 'w rpc = "string \<Rightarrow> json list \<Rightarrow> 'w \<Rightarrow> (error + json) \<times> 'w"

record 'w manager =
  wrapped_manager :: "'w rpc"
  signature_manager :: "'w rpc option"

text \<open>
  The mutable state a call works on: the \<^verbatim>\<open>_known_transactions\<close> of the mixin and the
  node. \<^verbatim>\<open>collections.defaultdict(set)\<close> answers the empty set for a key it has not
  seen, so the dict is a total function; a set is the list of its elements in iteration
  order.
\<close>

record 'w state =
  known_transactions :: "json \<Rightarrow> json list"
  world :: 'w

definition on_world :: "('w \<Rightarrow> 'a \<times> 'w) \<Rightarrow> 'w state \<Rightarrow> 'a \<times> 'w state" where
  "on_world f s = (case f (world s) of (r, w') \<Rightarrow> (r, s\<lparr>world := w'\<rparr>))"

definition ManagerWrapper_request_blocking ::
  "'w manager \<Rightarrow> string \<Rightarrow> json list \<Rightarrow> 'w state \<Rightarrow> (error + json) \<times> 'w state" where
  "ManagerWrapper_request_blocking self method params =
     on_world (wrapped_manager self method params)"

section \<open>BaseSendRawTransactionMixin and DelegatedSigningManager\<close>

text \<open>
  Dict keys and set elements are compared by \<^verbatim>\<open>==\<close> and must be hashable: lists and
  dicts are not (\<^verbatim>\<open>TypeError\<close>), and \<^verbatim>\<open>True == 1\<close>, \<^verbatim>\<open>False == 0\<close>. \<open>key_of\<close>
  picks one value in each class of equal ones.
\<close>

fun hashable :: "json \<Rightarrow> bool" where
  "hashable (JArr xs) = False"
| "hashable (JObj kvs) = False"
| "hashable v = True"

fun key_of :: "json \<Rightarrow> json" where
  "key_of (JBool b) = JNum (if b then 1 else 0)"
| "key_of v = v"

definition set_add :: "json \<Rightarrow> json list \<Rightarrow> json list" where
  "set_add x xs = (if key_of x \<in> key_of ` set xs then xs else xs @ [x])"

definition set_discard :: "json \<Rightarrow> json list \<Rightarrow> json list" where
  "set_discard x xs = filter (\<lambda>y. key_of y \<noteq> key_of x) xs"

definition init_known_transactions :: "json \<Rightarrow> json list" where
  "init_known_transactions = (\<lambda>addr. [])"

definition TXN_SENDING_METHODS :: "string set" where
  "TXN_SENDING_METHODS =
     {''eth_sendTransaction'', ''eth_sendRawTransaction'',
      ''personal_signAndSendTransaction'', ''personal_sendTransaction''}"

text \<open>\<^verbatim>\<open>hex(n)\<close> of Python, for \<^verbatim>\<open>hex(90000)\<close> at line 154.\<close>

definition hex_digit :: "nat \<Rightarrow> char" where
  "hex_digit d = ''0123456789abcdef'' ! d"

fun hex_digits :: "nat \<Rightarrow> string" where
  "hex_digits n = (if n < 16 then [hex_digit n] else hex_digits (n div 16) @ [hex_digit (n mod 16)])"

definition hex :: "int \<Rightarrow> string" where
  "hex n = (if n < 0 then ''-0x'' @ hex_digits (nat (- n)) else ''0x'' @ hex_digits (nat n))"

text \<open>\<^verbatim>\<open>dict(**d)\<close> copies a dict; \<^verbatim>\<open>d.setdefault(k, v)\<close> stores only under a new key.\<close>

definition dict_copy :: "json \<Rightarrow> error + (string \<times> json) list" where
  "dict_copy d = (case d of JObj kvs \<Rightarrow> Inr kvs | _ \<Rightarrow> Inl TypeError)"

definition setdefault :: "string \<Rightarrow> json \<Rightarrow> (string \<times> json) list \<Rightarrow> (string \<times> json) list" where
  "setdefault k v d = (if k \<in> fst ` set d then d else d @ [(k, v)])"

text \<open>
  \<^verbatim>\<open>DelegatedSigningManager.get_chain_nonce\<close> (lines 199 to 208) asks both managers,
  the signature manager first, and does not go through \<^verbatim>\<open>self.request_blocking\<close>.
\<close>

definition DelegatedSigningManager_get_chain_nonce ::
  "'t externals \<Rightarrow> 'w manager \<Rightarrow> 'w rpc \<Rightarrow> json \<Rightarrow> 'w \<Rightarrow> (error + int) \<times> 'w" where
  "DelegatedSigningManager_get_chain_nonce ext self sm addr w =
     (case sm ''eth_getTransactionCount'' [addr, JStr ''pending''] w of
        (Inl e, w1) \<Rightarrow> (Inl e, w1)
      | (Inr c1, w1) \<Rightarrow>
          (case to_decimal ext c1 of
             Inl e \<Rightarrow> (Inl e, w1)
           | Inr signer_nonce \<Rightarrow>
               (case wrapped_manager self ''eth_getTransactionCount'' [addr, JStr ''pending''] w1 of
                  (Inl e, w2) \<Rightarrow> (Inl e, w2)
                | (Inr c2, w2) \<Rightarrow>
                    (case to_decimal ext c2 of
                       Inl e \<Rightarrow> (Inl e, w2)
                     | Inr wrapped_nonce \<Rightarrow> (Inr (max signer_nonce wrapped_nonce), w2)))))"

text \<open>\<^verbatim>\<open>DelegatedSigningManager.get_transaction_signature\<close>, lines 210 to 223.\<close>

definition DelegatedSigningManager_get_transaction_signature ::
  "'t externals \<Rightarrow> 'w rpc \<Rightarrow> json \<Rightarrow> 'w \<Rightarrow> (error + string) \<times> 'w" where
  "DelegatedSigningManager_get_transaction_signature ext sm transaction w =
     (case serialize_transaction ext transaction of
        Inl e \<Rightarrow> (Inl e, w)
      | Inr serialized_txn \<Rightarrow>
          (case encode_hex ext serialized_txn of
             Inl e \<Rightarrow> (Inl e, w)
           | Inr hx \<Rightarrow>
               (case sm ''web3_sha3'' [JStr hx] w of
                  (Inl e, w1) \<Rightarrow> (Inl e, w1)
                | (Inr hash_to_sign, w1) \<Rightarrow>
                    (case getitem transaction ''from'' of
                       Inl e \<Rightarrow> (Inl e, w1)
                     | Inr txn_from \<Rightarrow>
                         (case sm ''eth_sign'' [txn_from, hash_to_sign] w1 of
                            (Inl e, w2) \<Rightarrow> (Inl e, w2)
                          | (Inr signature_hex, w2) \<Rightarrow> (decode_hex ext signature_hex, w2))))))"

text \<open>
  \<^verbatim>\<open>self.get_transaction_signature\<close>: line 135 raises \<^verbatim>\<open>NotImplementedError\<close> in the
  mixin, the subclass overrides it.
\<close>

definition get_transaction_signature ::
  "'t externals \<Rightarrow> 'w manager \<Rightarrow> json \<Rightarrow> 'w state \<Rightarrow> (error + string) \<times> 'w state" where
  "get_transaction_signature ext self transaction s =
     (case signature_manager self of
        None \<Rightarrow> (Inl NotImplementedError, s)
      | Some sm \<Rightarrow> on_world (DelegatedSigningManager_get_transaction_signature ext sm transaction) s)"

definition sign_and_serialize_transaction ::
  "'t externals \<Rightarrow> 'w manager \<Rightarrow> json \<Rightarrow> 'w state \<Rightarrow> (error + string) \<times> 'w state" where
  "sign_and_serialize_transaction ext self transaction s =
     (case serialize_transaction ext transaction of
        Inl e \<Rightarrow> (Inl e, s)
      | Inr serialized_txn \<Rightarrow>
          (case get_transaction_signature ext self transaction s of
             (Inl e, s1) \<Rightarrow> (Inl e, s1)
           | (Inr signature, s1) \<Rightarrow>
               (case add_signature_to_transaction ext serialized_txn signature of
                  Inl e \<Rightarrow> (Inl e, s1)
                | Inr signed_transaction \<Rightarrow> (rlp_encode ext signed_transaction, s1))))"

text \<open>
  The methods of the mixin call each other through \<^verbatim>\<open>self\<close>, so they are one recursive
  definition.

  \<open>get_nonces_and_cleanup\<close> is the loop of the generator \<^verbatim>\<open>_get_nonces_and_cleanup\<close>
  (lines 112 to 120) over what is left of the tuple \<^verbatim>\<open>all_known_txn_hashes\<close>; it
  returns the values the generator yields. The generator is consumed whole, by the
  \<^verbatim>\<open>*tracked_txn_nonces\<close> of line 132, before \<^verbatim>\<open>max\<close> is called; its first statement
  (line 111, the copy of the set) runs then, which is why \<open>get_nonce\<close> takes the copy.

  \<open>get_chain_nonce\<close> is \<^verbatim>\<open>self.get_chain_nonce\<close>: lines 122 to 127, or the override
  of the subclass.

  \<open>construct_full_transaction\<close>: the arguments of \<^verbatim>\<open>setdefault\<close> at lines 150 and 151
  are evaluated before \<^verbatim>\<open>setdefault\<close> looks at the dict, so both calls are made
  whatever \<^verbatim>\<open>base_transaction\<close> holds.

  \<open>mixin_request_blocking\<close> is \<^verbatim>\<open>BaseSendRawTransactionMixin.request_blocking\<close>, lines
  167 to 191.
\<close>

function (sequential)
  get_nonces_and_cleanup ::
    "'t externals \<Rightarrow> 'w manager \<Rightarrow> json \<Rightarrow> int \<Rightarrow> json list \<Rightarrow> 'w state \<Rightarrow>
       (error + int list) \<times> 'w state"
and get_chain_nonce ::
    "'t externals \<Rightarrow> 'w manager \<Rightarrow> json \<Rightarrow> 'w state \<Rightarrow> (error + int) \<times> 'w state"
and get_nonce ::
    "'t externals \<Rightarrow> 'w manager \<Rightarrow> json \<Rightarrow> 'w state \<Rightarrow> (error + int) \<times> 'w state"
and construct_full_transaction ::
    "'t externals \<Rightarrow> 'w manager \<Rightarrow> json \<Rightarrow> 'w state \<Rightarrow> (error + json) \<times> 'w state"
and mixin_request_blocking ::
    "'t externals \<Rightarrow> 'w manager \<Rightarrow> string \<Rightarrow> json list \<Rightarrow> 'w state \<Rightarrow> (error + json) \<times> 'w state"
where
  "get_nonces_and_cleanup ext self addr chain_nonce [] s = (Inr [], s)"
| "get_nonces_and_cleanup ext self addr chain_nonce (txn_hash # rest) s =
     (case mixin_request_blocking ext self ''eth_getTransactionByHash'' [txn_hash] s of
        (Inl e, s1) \<Rightarrow> (Inl e, s1)
      | (Inr txn, s1) \<Rightarrow>
          (case getitem txn ''nonce'' of
             Inl e \<Rightarrow> (Inl e, s1)
           | Inr n \<Rightarrow>
               (case to_decimal ext n of
                  Inl e \<Rightarrow> (Inl e, s1)
                | Inr txn_nonce \<Rightarrow>
                    if txn_nonce \<le> chain_nonce
                    then get_nonces_and_cleanup ext self addr chain_nonce rest
                           (s1\<lparr>known_transactions :=
                                 (known_transactions s1)
                                   (key_of addr :=
                                      set_discard txn_hash (known_transactions s1 (key_of addr)))\<rparr>)
                    else (case get_nonces_and_cleanup ext self addr chain_nonce rest s1 of
                            (Inl e, s2) \<Rightarrow> (Inl e, s2)
                          | (Inr nonces, s2) \<Rightarrow> (Inr (txn_nonce # nonces), s2)))))"
| "get_chain_nonce ext self addr s =
     (case signature_manager self of
        Some sm \<Rightarrow> on_world (DelegatedSigningManager_get_chain_nonce ext self sm addr) s
      | None \<Rightarrow>
          (case mixin_request_blocking ext self ''eth_getTransactionCount''
                  [addr, JStr ''pending''] s of
             (Inl e, s1) \<Rightarrow> (Inl e, s1)
           | (Inr c, s1) \<Rightarrow>
               (case to_decimal ext c of
                  Inl e \<Rightarrow> (Inl e, s1)
                | Inr chain_nonce \<Rightarrow> (Inr chain_nonce, s1))))"
| "get_nonce ext self addr s =
     (case get_chain_nonce ext self addr s of
        (Inl e, s1) \<Rightarrow> (Inl e, s1)
      | (Inr chain_nonce, s1) \<Rightarrow>
          if \<not> hashable addr then (Inl TypeError, s1)
          else (case get_nonces_and_cleanup ext self addr chain_nonce
                       (known_transactions s1 (key_of addr)) s1 of
                  (Inl e, s2) \<Rightarrow> (Inl e, s2)
                | (Inr tracked_txn_nonces, s2) \<Rightarrow>
                    (Inr (fold max tracked_txn_nonces (max 0 chain_nonce)), s2)))"
| "construct_full_transaction ext self base_transaction s =
     (case getitem base_transaction ''from'' of
        Inl e \<Rightarrow> (Inl e, s)
      | Inr txn_from \<Rightarrow>
          (case dict_copy base_transaction of
             Inl e \<Rightarrow> (Inl e, s)
           | Inr full_txn \<Rightarrow>
               (case get_nonce ext self txn_from s of
                  (Inl e, s1) \<Rightarrow> (Inl e, s1)
                | (Inr nonce, s1) \<Rightarrow>
                    (case mixin_request_blocking ext self ''eth_gasPrice'' [] s1 of
                       (Inl e, s2) \<Rightarrow> (Inl e, s2)
                     | (Inr gas_price, s2) \<Rightarrow>
                         (Inr (JObj
                            (setdefault ''data'' (JStr '''')
                              (setdefault ''to'' (JStr '''')
                                (setdefault ''value'' (JStr ''0x0'')
                                  (setdefault ''gas'' (JStr (hex 90000))
                                    (setdefault ''gasPrice'' gas_price
                                      (setdefault ''nonce'' (JNum nonce) full_txn))))))),
                          s2)))))"
| "mixin_request_blocking ext self method params s =
     (if method = ''eth_sendTransaction''
      then (case params of
              [] \<Rightarrow> (Inl IndexError, s)
            | base_transaction # _ \<Rightarrow>
                (case construct_full_transaction ext self base_transaction s of
                   (Inl e, s1) \<Rightarrow> (Inl e, s1)
                 | (Inr full_transaction, s1) \<Rightarrow>
                     (case sign_and_serialize_transaction ext self full_transaction s1 of
                        (Inl e, s2) \<Rightarrow> (Inl e, s2)
                      | (Inr raw_transaction_bytes, s2) \<Rightarrow>
                          (case encode_hex ext raw_transaction_bytes of
                             Inl e \<Rightarrow> (Inl e, s2)
                           | Inr raw_transaction_bytes_as_hex \<Rightarrow>
                               mixin_request_blocking ext self ''eth_sendRawTransaction''
                                 [JStr raw_transaction_bytes_as_hex] s2))))
      else (case ManagerWrapper_request_blocking self method params s of
              (Inl e, s1) \<Rightarrow> (Inl e, s1)
            | (Inr result, s1) \<Rightarrow>
                if method \<in> TXN_SENDING_METHODS
                then (case mixin_request_blocking ext self ''eth_getTransactionByHash''
                             [result] s1 of
                        (Inl e, s2) \<Rightarrow> (Inl e, s2)
                      | (Inr txn, s2) \<Rightarrow>
                          (case getitem txn ''from'' of
                             Inl e \<Rightarrow> (Inl e, s2)
                           | Inr txn_from \<Rightarrow>
                               if \<not> hashable txn_from \<or> \<not> hashable result
                               then (Inl TypeError, s2)
                               else (Inr result,
                                     s2\<lparr>known_transactions :=
                                          (known_transactions s2)
                                            (key_of txn_from :=
                                               set_add result
                                                 (known_transactions s2 (key_of txn_from)))\<rparr>)))
                else (Inr result, s1)))"
  by pat_completeness auto
termination
  by (relation "inv_image (less_than <*lex*> less_than)
     (\<lambda>x. case x of
        Inl (Inl (ext, self, addr, chain_nonce, hs, s)) \<Rightarrow> (2::nat, length hs)
      | Inl (Inr (ext, self, addr, s)) \<Rightarrow> (2, 0)
      | Inr (Inl (ext, self, addr, s)) \<Rightarrow> (3, 0)
      | Inr (Inr (Inl (ext, self, base, s))) \<Rightarrow> (4, 0)
      | Inr (Inr (Inr (ext, self, method, params, s))) \<Rightarrow>
          (if method = ''eth_sendTransaction'' then 5
           else if method \<in> TXN_SENDING_METHODS then 1 else 0, 0))")
    (auto simp: TXN_SENDING_METHODS_def)

section \<open>What a call to get_nonce resolves\<close>

text \<open>
  For the statements about \<open>get_nonce\<close>: \<open>resolve_nonces\<close> looks the tracked hashes up on
  the wrapped manager one after the other, as the loop does, and collects the nonce of
  each without touching \<^verbatim>\<open>_known_transactions\<close>. \<open>confirmed\<close> are the hashes whose
  resolved nonce is at most the chain nonce, \<open>pruned\<close> is a set without them.
\<close>

fun resolve_nonces ::
  "'t externals \<Rightarrow> 'w manager \<Rightarrow> json list \<Rightarrow> 'w \<Rightarrow> (error + int list) \<times> 'w" where
  "resolve_nonces ext self [] w = (Inr [], w)"
| "resolve_nonces ext self (txn_hash # rest) w =
     (case wrapped_manager self ''eth_getTransactionByHash'' [txn_hash] w of
        (Inl e, w1) \<Rightarrow> (Inl e, w1)
      | (Inr txn, w1) \<Rightarrow>
          (case getitem txn ''nonce'' of
             Inl e \<Rightarrow> (Inl e, w1)
           | Inr n \<Rightarrow>
               (case to_decimal ext n of
                  Inl e \<Rightarrow> (Inl e, w1)
                | Inr txn_nonce \<Rightarrow>
                    (case resolve_nonces ext self rest w1 of
                       (Inl e, w2) \<Rightarrow> (Inl e, w2)
                     | (Inr nonces, w2) \<Rightarrow> (Inr (txn_nonce # nonces), w2)))))"

definition confirmed :: "int \<Rightarrow> json list \<Rightarrow> int list \<Rightarrow> json list" where
  "confirmed chain_nonce hashes nonces =
     map fst (filter (\<lambda>(h, n). n \<le> chain_nonce) (zip hashes nonces))"

definition pruned :: "int \<Rightarrow> json list \<Rightarrow> int list \<Rightarrow> json list \<Rightarrow> json list" where
  "pruned chain_nonce hashes nonces tracked =
     filter (\<lambda>y. key_of y \<notin> key_of ` set (confirmed chain_nonce hashes nonces)) tracked"

section \<open>Test doubles\<close>

text \<open>
  Concrete stand-ins for the transport and the library functions, used where a property is
  evaluated on an example. \<open>mock_loads\<close> decodes the handful of response bodies the
  examples send, as \<^verbatim>\<open>json.loads\<close> does, and refuses every other text.
\<close>

definition mock_loads :: "string \<Rightarrow> error + json" where
  \<open>mock_loads text =
     (if text = ''{}'' then Inr (JObj [])
      else if text = ''{"result": "0x2a"}'' then Inr (JObj [(''result'', JStr ''0x2a'')])
      else if text = ''{"error": "boom"}'' then Inr (JObj [(''error'', JStr ''boom'')])
      else if text = ''{"result": {"nonce": "0x1"}}''
        then Inr (JObj [(''result'', JObj [(''nonce'', JStr ''0x1'')])])
      else Inl (External ''JSONDecodeError''))\<close>

text \<open>
  Modelled from the spec: \<^verbatim>\<open>to_decimal\<close> of \<^verbatim>\<open>web3.utils.encoding\<close> is not in the
  source at hand. The spec has it return the \<^verbatim>\<open>0x\<close>-prefixed hexadecimal string of a
  response as an integer (\<^verbatim>\<open>"0x2a"\<close> gives 42).
\<close>

definition hex_value :: "char \<Rightarrow> nat option" where
  "hex_value = map_of
     [(CHR ''0'', 0), (CHR ''1'', 1), (CHR ''2'', 2), (CHR ''3'', 3), (CHR ''4'', 4),
      (CHR ''5'', 5), (CHR ''6'', 6), (CHR ''7'', 7), (CHR ''8'', 8), (CHR ''9'', 9),
      (CHR ''a'', 10), (CHR ''b'', 11), (CHR ''c'', 12), (CHR ''d'', 13), (CHR ''e'', 14),
      (CHR ''f'', 15)]"

fun parse_hex :: "string \<Rightarrow> nat \<Rightarrow> nat option" where
  "parse_hex [] acc = Some acc"
| "parse_hex (ch # rest) acc =
     (case hex_value ch of None \<Rightarrow> None | Some d \<Rightarrow> parse_hex rest (16 * acc + d))"

definition mock_to_decimal :: "json \<Rightarrow> error + int" where
  "mock_to_decimal v =
     (case v of
        JNum n \<Rightarrow> Inr n
      | JStr (a # b # ds) \<Rightarrow>
          (if a = CHR ''0'' \<and> b = CHR ''x'' \<and> ds \<noteq> []
           then (case parse_hex ds 0 of
                   Some n \<Rightarrow> Inr (int n)
                 | None \<Rightarrow> Inl (External ''ValueError''))
           else Inl (External ''ValueError''))
      | _ \<Rightarrow> Inl (External ''ValueError''))"

definition mock_ext :: "string externals" where
  "mock_ext =
     \<lparr>force_text = Inr, json_loads = mock_loads,
      to_decimal = mock_to_decimal,
      encode_hex = (\<lambda>bytes. Inr (''0x'' @ bytes)),
      decode_hex = (\<lambda>v. case v of JStr text \<Rightarrow> Inr text | _ \<Rightarrow> Inl TypeError),
      serialize_transaction = (\<lambda>txn. Inr ''f8''),
      add_signature_to_transaction = (\<lambda>serialized signature. Inr (serialized @ signature)),
      rlp_encode = Inr\<rparr>"

definition echo_provider :: "string \<Rightarrow> unit provider" where
  "echo_provider raw = (\<lambda>method params w. (Inr raw, w))"

text \<open>
  A node for the examples: it reports a fixed pending count, knows the transactions of
  a table by their hash, and answers a raw transaction with a fixed result or error.
  \<open>mock_signer\<close> is a signature manager that hashes and signs with fixed answers.
\<close>

record node =
  pending_count :: json
  transactions :: "(json \<times> json) list"
  broadcast :: "error + json"

definition mock_node :: "node rpc" where
  "mock_node method params w =
     (if method = ''eth_getTransactionCount'' then (Inr (pending_count w), w)
      else if method = ''eth_getTransactionByHash''
        then (case params of
                [h] \<Rightarrow> (case map_of (transactions w) h of
                          Some txn \<Rightarrow> (Inr txn, w)
                        | None \<Rightarrow> (Inr JNull, w))
              | _ \<Rightarrow> (Inl (ValueError (JStr ''invalid params'')), w))
      else if method = ''eth_gasPrice'' then (Inr (JStr ''0x4a817c800''), w)
      else if method = ''eth_sendRawTransaction'' then (broadcast w, w)
      else (Inl (ValueError (JStr ''method not found'')), w))"

definition mock_signer :: "node rpc" where
  "mock_signer method params w =
     (if method = ''eth_getTransactionCount'' then (Inr (JStr ''0x3''), w)
      else if method = ''web3_sha3'' then (Inr (JStr ''0xc0ffee''), w)
      else if method = ''eth_sign'' then (Inr (JStr ''5161''), w)
      else (Inl (ValueError (JStr ''method not found'')), w))"

definition mixin_manager :: "node manager" where
  "mixin_manager = \<lparr>wrapped_manager = mock_node, signature_manager = None\<rparr>"

definition delegated_manager :: "node manager" where
  "delegated_manager = \<lparr>wrapped_manager = mock_node, signature_manager = Some mock_signer\<rparr>"

text \<open>
  The node of the examples reports a pending count of 5 for every address and knows five
  transactions of \<^verbatim>\<open>0xAA\<close>, with nonces 3, 5, 6, 7 and 8; \<open>node_5_rejecting\<close> is the same
  node refusing every raw transaction. \<open>tracking hashes w\<close> is the state in which
  \<open>hashes\<close> are tracked under \<^verbatim>\<open>0xAA\<close> and nothing else is.
\<close>

definition node_5 :: "node" where
  "node_5 =
     \<lparr>pending_count = JStr ''0x5'',
      transactions =
        [(JStr ''0xh3'', JObj [(''nonce'', JStr ''0x3''), (''from'', JStr ''0xAA'')]),
         (JStr ''0xh5'', JObj [(''nonce'', JStr ''0x5''), (''from'', JStr ''0xAA'')]),
         (JStr ''0xh6'', JObj [(''nonce'', JStr ''0x6''), (''from'', JStr ''0xAA'')]),
         (JStr ''0xh7'', JObj [(''nonce'', JStr ''0x7''), (''from'', JStr ''0xAA'')]),
         (JStr ''0xh8'', JObj [(''nonce'', JStr ''0x8''), (''from'', JStr ''0xAA'')])],
      broadcast = Inr (JStr ''0xh6'')\<rparr>"

definition tracking :: "json list \<Rightarrow> node \<Rightarrow> node state" where
  "tracking hashes w =
     \<lparr>known_transactions = init_known_transactions(JStr ''0xAA'' := hashes), world = w\<rparr>"

definition node_5_rejecting :: "node" where
  "node_5_rejecting = node_5\<lparr>broadcast := Inl (ValueError (JStr ''insufficient funds''))\<rparr>"

section \<open>Calls forwarded to the wrapped manager\<close>

text \<open>
  To state which calls reach the wrapped manager, \<open>logged\<close> wraps it so that every call
  forwarded to it is appended, with its method and parameters, to a log kept beside the
  node; calls to the signature manager are not forwarded calls and leave the log as it
  is. \<open>forwards M s s'\<close> says that between \<open>s\<close> and \<open>s'\<close> the log grew by calls of methods
  in \<open>M\<close> only.
\<close>

type_synonym call_log = "(string \<times> json list) list"

definition logged :: "'w manager \<Rightarrow> ('w \<times> call_log) manager" where
  "logged self =
     \<lparr>wrapped_manager =
        (\<lambda>method params (w, log).
           case wrapped_manager self method params w of
             (r, w') \<Rightarrow> (r, (w', log @ [(method, params)]))),
      signature_manager =
        map_option
          (\<lambda>sm method params (w, log). case sm method params w of (r, w') \<Rightarrow> (r, (w', log)))
          (signature_manager self)\<rparr>"

definition forwards :: "string set \<Rightarrow> ('w \<times> call_log) state \<Rightarrow> ('w \<times> call_log) state \<Rightarrow> bool" where
  "forwards M s s' \<longleftrightarrow> (\<exists>calls. snd (world s') = snd (world s) @ calls \<and> fst ` set calls \<subseteq> M)"

section \<open>The response envelope\<close>

lemma key_in_dict: "k \<in> fst ` set kvs \<longleftrightarrow> (\<exists>v. map_of kvs k = Some v)"
  using map_of_eq_None_iff [of kvs k] by auto

lemma decode_response_JObj:
  "decode_response (JObj kvs) =
     (case map_of kvs ''error'' of
        Some payload \<Rightarrow> Inl (ValueError payload)
      | None \<Rightarrow> (case map_of kvs ''result'' of Some v \<Rightarrow> Inr v | None \<Rightarrow> Inl (KeyError ''result'')))"
  by (auto simp: decode_response_def getitem_def key_in_dict split: option.splits)

lemma request_blocking_decoded:
  assumes "provider self method params w = (Inr response_raw, w')"
    and "force_text ext response_raw = Inr text"
    and "json_loads ext text = Inr response"
  shows "request_blocking ext self method params w = (decode_response response, w')"
  using assms by (simp add: request_blocking_def)

text \<open>
  Claim C4, as the code has it. When the provider's response decodes to a JSON object
  \<open>resp\<close>, \<open>request_blocking\<close> returns a value \<open>v\<close> exactly when \<open>resp\<close> has no
  \<^verbatim>\<open>error\<close> key and holds \<open>v\<close> under \<^verbatim>\<open>result\<close>; it fails with the \<open>ValueError\<close> that
  carries \<open>payload\<close> exactly when \<open>resp\<close> holds \<open>payload\<close> under \<^verbatim>\<open>error\<close>; and with
  neither key it fails with \<^verbatim>\<open>KeyError('result')\<close>.
\<close>

theorem request_blocking_result_or_error:
  assumes "provider self method params w = (Inr response_raw, w')"
    and "force_text ext response_raw = Inr text"
    and "json_loads ext text = Inr (JObj resp)"
  shows "(fst (request_blocking ext self method params w) = Inr v \<longleftrightarrow>
            ''error'' \<notin> fst ` set resp \<and> map_of resp ''result'' = Some v)
       \<and> (fst (request_blocking ext self method params w) = Inl (ValueError payload) \<longleftrightarrow>
            map_of resp ''error'' = Some payload)
       \<and> (''error'' \<notin> fst ` set resp \<and> ''result'' \<notin> fst ` set resp \<longrightarrow>
            fst (request_blocking ext self method params w) = Inl (KeyError ''result''))"
proof -
  have eq: "fst (request_blocking ext self method params w) = decode_response (JObj resp)"
    using assms by (simp add: request_blocking_decoded)
  show ?thesis
    unfolding eq decode_response_JObj
    by (auto simp: key_in_dict split: option.splits)
qed

theorem request_blocking_result_or_error_witness:
  "fst (request_blocking mock_ext (init_RequestManager (echo_provider ''{\"result\": \"0x2a\"}''))
          ''eth_getTransactionCount'' [JStr ''0xAA'', JStr ''pending''] ()) = Inr (JStr ''0x2a'')
   \<and> fst (request_blocking mock_ext (init_RequestManager (echo_provider ''{\"error\": \"boom\"}''))
          ''eth_getTransactionCount'' [JStr ''0xAA'', JStr ''pending''] ()) = Inl (ValueError (JStr ''boom''))"
proof -
  have a: "fst (request_blocking mock_ext (init_RequestManager (echo_provider ''{\"result\": \"0x2a\"}''))
          ''eth_getTransactionCount'' [JStr ''0xAA'', JStr ''pending''] ()) = Inr (JStr ''0x2a'')"
    using request_blocking_result_or_error
      [of "init_RequestManager (echo_provider ''{\"result\": \"0x2a\"}'')"
          "''eth_getTransactionCount''" "[JStr ''0xAA'', JStr ''pending'']" "()"
          "''{\"result\": \"0x2a\"}''" "()" mock_ext "''{\"result\": \"0x2a\"}''"
          "[(''result'', JStr ''0x2a'')]" "JStr ''0x2a''"]
    by (simp add: init_RequestManager_def echo_provider_def mock_ext_def mock_loads_def)
  have b: "fst (request_blocking mock_ext (init_RequestManager (echo_provider ''{\"error\": \"boom\"}''))
          ''eth_getTransactionCount'' [JStr ''0xAA'', JStr ''pending''] ()) = Inl (ValueError (JStr ''boom''))"
    using request_blocking_result_or_error
      [of "init_RequestManager (echo_provider ''{\"error\": \"boom\"}'')"
          "''eth_getTransactionCount''" "[JStr ''0xAA'', JStr ''pending'']" "()"
          "''{\"error\": \"boom\"}''" "()" mock_ext "''{\"error\": \"boom\"}''"
          "[(''error'', JStr ''boom'')]" _ "JStr ''boom''"]
    by (simp add: init_RequestManager_def echo_provider_def mock_ext_def mock_loads_def)
  from a b show ?thesis by simp
qed

text \<open>
  Claim C4 as stated promises the \<^verbatim>\<open>result\<close> field whenever the \<^verbatim>\<open>error\<close> key is absent.
  The response \<^verbatim>\<open>{}\<close> decodes to an object without an \<^verbatim>\<open>error\<close> key, and the call
  raises \<^verbatim>\<open>KeyError\<close> at line 41 instead of returning.
\<close>

theorem request_blocking_empty_object_counterexample:
  "json_loads mock_ext ''{}'' = Inr (JObj [])
   \<and> ''error'' \<notin> fst ` set ([] :: (string \<times> json) list)
   \<and> fst (request_blocking mock_ext (init_RequestManager (echo_provider ''{}''))
            ''eth_getTransactionCount'' [JStr ''0xAA'', JStr ''pending''] ())
       = Inl (KeyError ''result'')"
  by (simp add: request_blocking_def init_RequestManager_def echo_provider_def mock_ext_def
      mock_loads_def decode_response_def getitem_def)


lemma receive_blocking_missing:
  "pending_requests self i = None \<Longrightarrow>
     receive_blocking ext self i timeout = (Inl (KeyError_request i), self)"
  by (simp add: receive_blocking_def)

lemma receive_blocking_pops:
  "pending_requests self i = Some t \<Longrightarrow>
     snd (receive_blocking ext self i timeout) =
       self\<lparr>pending_requests := (pending_requests self)(i := None)\<rparr>"
  by (simp add: receive_blocking_def Let_def split: sum.splits)

lemma receive_blocking_pending:
  "pending_requests (snd (receive_blocking ext self i timeout)) j =
     (if j = i then None else pending_requests self j)"
  by (cases "pending_requests self i")
     (auto simp: receive_blocking_missing receive_blocking_pops)

lemma step_keeps_absent:
  assumes "pending_requests (fst s) i = None" and "\<not> issues i c"
  shows "pending_requests (fst (step ext c s)) i = None"
proof (cases s)
  case (Pair self w)
  with assms show ?thesis
    by (cases c)
       (auto simp: request_async_def setProvider_def receive_blocking_pending
             split: prod.splits)
qed

lemma run_keeps_absent:
  "pending_requests (fst s) i = None \<Longrightarrow> \<forall>c\<in>set cs. \<not> issues i c \<Longrightarrow>
     pending_requests (fst (run ext cs s)) i = None"
proof (induction cs arbitrary: s)
  case Nil
  then show ?case by simp
next
  case (Cons c cs)
  from Cons.prems have "pending_requests (fst (step ext c s)) i = None"
    by (simp add: step_keeps_absent)
  with Cons show ?case by simp
qed

text \<open>
  Claim C7. Retrieval is destructive and single-consumer: a first \<open>receive_blocking\<close> of a
  pending identifier removes exactly that entry, whatever it returns, and a second one
  on the same identifier fails with the \<^verbatim>\<open>KeyError\<close> of line 56; so does the retrieval
  of an identifier that no \<open>request_async\<close> has issued since the manager was created.
\<close>

theorem receive_blocking_single_consumer:
  "(pending_requests self i = Some t \<longrightarrow>
      snd (receive_blocking ext self i timeout) =
        self\<lparr>pending_requests := (pending_requests self)(i := None)\<rparr>
      \<and> fst (receive_blocking ext (snd (receive_blocking ext self i timeout)) i timeout') =
          Inl (KeyError_request i))
   \<and> ((\<forall>c\<in>set cs. \<not> issues i c) \<longrightarrow>
        fst (receive_blocking ext (fst (run ext cs (init_RequestManager p, w))) i timeout) =
          Inl (KeyError_request i))"
proof (intro conjI impI)
  assume "pending_requests self i = Some t"
  then show "snd (receive_blocking ext self i timeout) =
        self\<lparr>pending_requests := (pending_requests self)(i := None)\<rparr>"
    by (rule receive_blocking_pops)
next
  have "pending_requests (snd (receive_blocking ext self i timeout)) i = None"
    by (simp add: receive_blocking_pending)
  then show "fst (receive_blocking ext (snd (receive_blocking ext self i timeout)) i timeout') =
          Inl (KeyError_request i)"
    by (simp add: receive_blocking_missing)
next
  assume "\<forall>c\<in>set cs. \<not> issues i c"
  moreover have "pending_requests (fst (init_RequestManager p, w)) i = None"
    by (simp add: init_RequestManager_def)
  ultimately have "pending_requests (fst (run ext cs (init_RequestManager p, w))) i = None"
    by (rule run_keeps_absent [rotated])
  then show "fst (receive_blocking ext (fst (run ext cs (init_RequestManager p, w))) i timeout) =
          Inl (KeyError_request i)"
    by (simp add: receive_blocking_missing)
qed

text \<open>
  Claim C10. The entry is popped at line 54, before the wait. When \<open>receive_blocking\<close>
  fails after that (with \<open>Timeout\<close>, or with any error of the task or of the decoding),
  the entry is gone although the task holds its outcome, and every later
  \<open>receive_blocking\<close> of the identifier fails with the \<^verbatim>\<open>KeyError\<close> of line 56, whatever
  calls are made in between, as long as \<^verbatim>\<open>uuid4\<close> does not draw the identifier again.
\<close>

theorem receive_blocking_after_failure:
  assumes "pending_requests self i = Some t"
    and "fst (receive_blocking ext self i timeout) = Inl e"
    and "\<forall>c\<in>set cs. \<not> issues i c"
  shows "pending_requests (snd (receive_blocking ext self i timeout)) i = None
       \<and> fst (receive_blocking ext
                (fst (run ext cs (snd (receive_blocking ext self i timeout), w))) i timeout') =
           Inl (KeyError_request i)"
proof -
  have gone: "pending_requests (snd (receive_blocking ext self i timeout)) i = None"
    by (simp add: receive_blocking_pending)
  then have "pending_requests (fst (snd (receive_blocking ext self i timeout), w)) i = None"
    by simp
  from run_keeps_absent [OF this assms(3)]
  have "pending_requests (fst (run ext cs (snd (receive_blocking ext self i timeout), w))) i = None" .
  with gone show ?thesis
    by (simp add: receive_blocking_missing)
qed

lemma receive_blocking_timeout:
  "pending_requests self i = Some t \<Longrightarrow> d < duration t \<Longrightarrow>
     fst (receive_blocking ext self i (Some d)) = Inl Timeout"
  by (simp add: receive_blocking_def task_get_def Let_def)


theorem receive_blocking_single_consumer_witness:
  "pending_requests
     (fst (snd (request_async mock_ext (init_RequestManager (echo_provider ''{\"result\": \"0x2a\"}''))
                  7 0 ''eth_gasPrice'' [] ()))) 7
     = Some \<lparr>outcome = Inr (JStr ''0x2a''), duration = 0\<rparr>
   \<and> fst (receive_blocking mock_ext
            (snd (receive_blocking mock_ext
               (fst (snd (request_async mock_ext
                  (init_RequestManager (echo_provider ''{\"result\": \"0x2a\"}''))
                  7 0 ''eth_gasPrice'' [] ()))) 7 None)) 7 None)
       = Inl (KeyError_request 7)
   \<and> fst (receive_blocking mock_ext
            (fst (run mock_ext [RequestAsync 8 0 ''eth_gasPrice'' [], ReceiveBlocking 8 None]
                    (init_RequestManager (echo_provider ''{\"result\": \"0x2a\"}''), ()))) 7 None)
       = Inl (KeyError_request 7)"
proof -
  let ?self = "fst (snd (request_async mock_ext
                  (init_RequestManager (echo_provider ''{\"result\": \"0x2a\"}''))
                  7 0 ''eth_gasPrice'' [] ()))"
  let ?cs = "[RequestAsync 8 0 ''eth_gasPrice'' [], ReceiveBlocking 8 None] :: unit call list"
  have p: "pending_requests ?self 7 = Some \<lparr>outcome = Inr (JStr ''0x2a''), duration = 0\<rparr>"
    by (simp add: request_async_def request_blocking_def init_RequestManager_def
        echo_provider_def mock_ext_def mock_loads_def decode_response_def getitem_def)
  have n: "\<forall>c\<in>set ?cs. \<not> issues 7 c"
    by simp
  note all = receive_blocking_single_consumer
    [of ?self 7 "\<lparr>outcome = Inr (JStr ''0x2a''), duration = 0\<rparr>" mock_ext None None ?cs
        "echo_provider ''{\"result\": \"0x2a\"}''" "()"]
  from all [THEN conjunct1, THEN mp, OF p, THEN conjunct2]
       all [THEN conjunct2, THEN mp, OF n] p
  show ?thesis by simp
qed

theorem receive_blocking_after_failure_witness:
  "fst (receive_blocking mock_ext
          \<lparr>pending_requests = [7 \<mapsto> \<lparr>outcome = Inr (JStr ''0x2a''), duration = 5\<rparr>],
           provider = echo_provider ''{\"result\": \"0x2a\"}''\<rparr> 7 (Some 3)) = Inl Timeout
   \<and> fst (receive_blocking mock_ext
            (fst (run mock_ext [RequestAsync 8 0 ''eth_gasPrice'' [], ReceiveBlocking 8 None]
               (snd (receive_blocking mock_ext
                  \<lparr>pending_requests = [7 \<mapsto> \<lparr>outcome = Inr (JStr ''0x2a''), duration = 5\<rparr>],
                   provider = echo_provider ''{\"result\": \"0x2a\"}''\<rparr> 7 (Some 3)), ())))
            7 None) = Inl (KeyError_request 7)"
proof -
  let ?self = "\<lparr>pending_requests = [7 \<mapsto> \<lparr>outcome = Inr (JStr ''0x2a''), duration = 5\<rparr>],
                 provider = echo_provider ''{\"result\": \"0x2a\"}''\<rparr>"
  have p: "pending_requests ?self 7 = Some \<lparr>outcome = Inr (JStr ''0x2a''), duration = 5\<rparr>"
    by simp
  have f: "fst (receive_blocking mock_ext ?self 7 (Some 3)) = Inl Timeout"
    by (simp add: receive_blocking_def task_get_def)
  have n: "\<forall>c\<in>set [RequestAsync 8 0 ''eth_gasPrice'' [], ReceiveBlocking 8 None :: unit call].
             \<not> issues 7 c"
    by simp
  from receive_blocking_after_failure [OF p f n, of "()" None] f show ?thesis
    by simp
qed

text \<open>
  Claim C3 does not hold of the code. The task spawned at line 45 runs
  \<^verbatim>\<open>self.request_blocking\<close>, so it completes with the \<^verbatim>\<open>result\<close> field \<open>v\<close> that
  \<open>request_blocking\<close> has already decoded, not with the raw response; line 62 then
  applies \<^verbatim>\<open>json.loads\<close> to \<open>v\<close> a second time. Where the blocking call returns
  \<open>v\<close>, the asynchronous pair returns what decoding \<open>v\<close> gives, and raises
  \<^verbatim>\<open>TypeError\<close> for every \<open>v\<close> that is not a string.
\<close>

theorem receive_blocking_decodes_result_again:
  assumes "provider self method params w = (Inr response_raw, w')"
    and "force_text ext response_raw = Inr text"
    and "json_loads ext text = Inr (JObj resp)"
    and "''error'' \<notin> fst ` set resp"
    and "map_of resp ''result'' = Some v"
    and "request_async ext self i d method params w = (i', self', w'')"
  shows "fst (request_blocking ext self method params w) = Inr v
       \<and> fst (receive_blocking ext self' i' None) =
           (case loads_object ext v of
              Inl e \<Rightarrow> Inl e
            | Inr response \<Rightarrow> decode_response response)
       \<and> ((\<forall>text'. v \<noteq> JStr text') \<longrightarrow> fst (receive_blocking ext self' i' None) = Inl TypeError)"
proof -
  have "map_of resp ''error'' = None"
    using assms(4) by (simp add: map_of_eq_None_iff)
  then have dec: "decode_response (JObj resp) = Inr v"
    using assms(5) by (simp add: decode_response_JObj)
  have rb: "request_blocking ext self method params w = (Inr v, w')"
    using request_blocking_decoded [OF assms(1-3)] dec by simp
  have task: "i' = i" "pending_requests self' i = Some \<lparr>outcome = Inr v, duration = d\<rparr>"
    using assms(6) rb by (auto simp: request_async_def)
  have recv: "fst (receive_blocking ext self' i' None) =
           (case loads_object ext v of
              Inl e \<Rightarrow> Inl e
            | Inr response \<Rightarrow> decode_response response)"
    using task by (simp add: receive_blocking_def task_get_def Let_def split: sum.splits)
  have "fst (receive_blocking ext self' i' None) = Inl TypeError" if "\<forall>text'. v \<noteq> JStr text'"
    using that unfolding recv by (cases v) (simp_all add: loads_object_def)
  with rb recv show ?thesis by simp
qed

theorem receive_blocking_decodes_result_again_witness:
  "fst (request_blocking mock_ext
          (init_RequestManager (echo_provider ''{\"result\": {\"nonce\": \"0x1\"}}''))
          ''eth_getTransactionByHash'' [JStr ''0xh1''] ())
     = Inr (JObj [(''nonce'', JStr ''0x1'')])
   \<and> fst (receive_blocking mock_ext
            (fst (snd (request_async mock_ext
               (init_RequestManager (echo_provider ''{\"result\": {\"nonce\": \"0x1\"}}''))
               7 0 ''eth_getTransactionByHash'' [JStr ''0xh1''] ()))) 7 None)
       = Inl TypeError"
proof -
  let ?self = "init_RequestManager (echo_provider ''{\"result\": {\"nonce\": \"0x1\"}}'') :: unit request_manager"
  let ?p = "[JStr ''0xh1'']"
  obtain i' self' w'' where
    ra: "request_async mock_ext ?self 7 0 ''eth_getTransactionByHash'' ?p () = (i', self', w'')"
    by (cases "request_async mock_ext ?self 7 0 ''eth_getTransactionByHash'' ?p ()")
  have i': "i' = 7"
    using ra by (auto simp: request_async_def split: prod.splits)
  have a1: "provider ?self ''eth_getTransactionByHash'' ?p () = (Inr ''{\"result\": {\"nonce\": \"0x1\"}}'', ())"
    by (simp add: init_RequestManager_def echo_provider_def)
  have a2: "force_text mock_ext ''{\"result\": {\"nonce\": \"0x1\"}}'' = Inr ''{\"result\": {\"nonce\": \"0x1\"}}''"
    by (simp add: mock_ext_def)
  have a3: "json_loads mock_ext ''{\"result\": {\"nonce\": \"0x1\"}}'' =
              Inr (JObj [(''result'', JObj [(''nonce'', JStr ''0x1'')])])"
    by (simp add: mock_ext_def mock_loads_def)
  have a4: "''error'' \<notin> fst ` set [(''result'', JObj [(''nonce'', JStr ''0x1'')])]"
    by simp
  have a5: "map_of [(''result'', JObj [(''nonce'', JStr ''0x1'')])] ''result'' =
              Some (JObj [(''nonce'', JStr ''0x1'')])"
    by simp
  from receive_blocking_decodes_result_again [OF a1 a2 a3 a4 a5 ra] ra i'
  show ?thesis by (simp add: loads_object_def)
qed

section \<open>Nonces and the tracked transactions\<close>

declare get_nonces_and_cleanup.simps [simp del] get_chain_nonce.simps [simp del]
  get_nonce.simps [simp del] construct_full_transaction.simps [simp del]
  mixin_request_blocking.simps [simp del]

lemma mixin_request_blocking_forward:
  assumes "method \<noteq> ''eth_sendTransaction''" and "method \<notin> TXN_SENDING_METHODS"
  shows "mixin_request_blocking ext self method params s =
           ManagerWrapper_request_blocking self method params s"
  using assms
  by (subst mixin_request_blocking.simps) (simp split: prod.splits sum.splits)

lemma lookup_forward:
  "mixin_request_blocking ext self ''eth_getTransactionByHash'' params s =
     ManagerWrapper_request_blocking self ''eth_getTransactionByHash'' params s"
  "mixin_request_blocking ext self ''eth_getTransactionCount'' params s =
     ManagerWrapper_request_blocking self ''eth_getTransactionCount'' params s"
  "mixin_request_blocking ext self ''eth_gasPrice'' params s =
     ManagerWrapper_request_blocking self ''eth_gasPrice'' params s"
  by (simp_all add: mixin_request_blocking_forward TXN_SENDING_METHODS_def)

lemma on_world_eq:
  "on_world f s = (fst (f (world s)), s\<lparr>world := snd (f (world s))\<rparr>)"
  by (simp add: on_world_def split: prod.splits)

lemma get_nonces_and_cleanup_resolved:
  "resolve_nonces ext self hs (world s) = (Inr ns, w') \<Longrightarrow>
     get_nonces_and_cleanup ext self addr c hs s =
       (Inr (filter (\<lambda>n. c < n) ns),
        \<lparr>known_transactions =
           (known_transactions s)
             (key_of addr := pruned c hs ns (known_transactions s (key_of addr))),
         world = w'\<rparr>)"
proof (induction hs arbitrary: s ns)
  case Nil
  then show ?case
    by (simp add: get_nonces_and_cleanup.simps pruned_def confirmed_def)
next
  case (Cons h hs)
  from Cons.prems obtain txn w1 n k ks where
    look: "wrapped_manager self ''eth_getTransactionByHash'' [h] (world s) = (Inr txn, w1)"
    and n: "getitem txn ''nonce'' = Inr n"
    and k: "to_decimal ext n = Inr k"
    and rest: "resolve_nonces ext self hs w1 = (Inr ks, w')"
    and ns: "ns = k # ks"
    by (auto split: prod.splits sum.splits)
  have call: "mixin_request_blocking ext self ''eth_getTransactionByHash'' [h] s =
                (Inr txn, s\<lparr>world := w1\<rparr>)"
    using look by (simp add: lookup_forward ManagerWrapper_request_blocking_def on_world_eq)
  show ?case
  proof (cases "k \<le> c")
    case True
    let ?s1 = "s\<lparr>world := w1,
                 known_transactions :=
                   (known_transactions s)
                     (key_of addr := set_discard h (known_transactions s (key_of addr)))\<rparr>"
    have "resolve_nonces ext self hs (world ?s1) = (Inr ks, w')"
      using rest by simp
    from Cons.IH [OF this] True call n k ns show ?thesis
      by (subst get_nonces_and_cleanup.simps)
         (auto simp: pruned_def confirmed_def set_discard_def intro!: filter_cong)
  next
    case False
    have "resolve_nonces ext self hs (world (s\<lparr>world := w1\<rparr>)) = (Inr ks, w')"
      using rest by simp
    from Cons.IH [OF this] False call n k ns show ?thesis
      by (subst get_nonces_and_cleanup.simps) (simp add: pruned_def confirmed_def fun_upd_def)
  qed
qed


lemma get_nonces_and_cleanup_failed:
  "resolve_nonces ext self hs (world s) = (Inl e, w') \<Longrightarrow>
     fst (get_nonces_and_cleanup ext self addr c hs s) = Inl e"
proof (induction hs arbitrary: s)
  case Nil
  then show ?case by simp
next
  case (Cons h hs)
  obtain r w1 where look: "wrapped_manager self ''eth_getTransactionByHash'' [h] (world s) = (r, w1)"
    by (cases "wrapped_manager self ''eth_getTransactionByHash'' [h] (world s)")
  have call: "mixin_request_blocking ext self ''eth_getTransactionByHash'' [h] s =
                (r, s\<lparr>world := w1\<rparr>)"
    using look by (simp add: lookup_forward ManagerWrapper_request_blocking_def on_world_eq)
  show ?case
  proof (cases r)
    case (Inl e')
    with Cons.prems look call show ?thesis
      by (subst get_nonces_and_cleanup.simps) simp
  next
    case (Inr txn)
    show ?thesis
    proof (cases "getitem txn ''nonce''")
      case (Inl e')
      with Cons.prems look call Inr show ?thesis
        by (subst get_nonces_and_cleanup.simps) simp
    next
      case n: (Inr n)
      show ?thesis
      proof (cases "to_decimal ext n")
        case (Inl e')
        with Cons.prems look call Inr n show ?thesis
          by (subst get_nonces_and_cleanup.simps) simp
      next
        case k: (Inr k)
        from Cons.prems look Inr n k have rest: "resolve_nonces ext self hs w1 = (Inl e, w')"
          by (auto split: prod.splits sum.splits)
        show ?thesis
        proof (cases "k \<le> c")
          case True
          let ?s1 = "s\<lparr>world := w1,
                 known_transactions :=
                   (known_transactions s)
                     (key_of addr := set_discard h (known_transactions s (key_of addr)))\<rparr>"
          have "resolve_nonces ext self hs (world ?s1) = (Inl e, w')"
            using rest by simp
          from Cons.IH [OF this] True call Inr n k show ?thesis
            by (subst get_nonces_and_cleanup.simps) simp
        next
          case False
          have "resolve_nonces ext self hs (world (s\<lparr>world := w1\<rparr>)) = (Inl e, w')"
            using rest by simp
          from Cons.IH [OF this] False call Inr n k show ?thesis
            by (subst get_nonces_and_cleanup.simps) (auto split: prod.splits sum.splits)
        qed
      qed
    qed
  qed
qed

lemma get_nonces_and_cleanup_returns:
  assumes "get_nonces_and_cleanup ext self addr c hs s = (Inr tracked, s')"
  shows "\<exists>ns. resolve_nonces ext self hs (world s) = (Inr ns, world s')
           \<and> tracked = filter (\<lambda>n. c < n) ns
           \<and> known_transactions s' =
               (known_transactions s)
                 (key_of addr := pruned c hs ns (known_transactions s (key_of addr)))"
proof -
  obtain r w' where res: "resolve_nonces ext self hs (world s) = (r, w')"
    by (cases "resolve_nonces ext self hs (world s)")
  show ?thesis
  proof (cases r)
    case (Inl e)
    with res assms get_nonces_and_cleanup_failed [of ext self hs s e w' addr c]
    show ?thesis by simp
  next
    case (Inr ns)
    with res assms get_nonces_and_cleanup_resolved [of ext self hs s ns w' addr c]
    show ?thesis by auto
  qed
qed

lemma resolve_nonces_length:
  "resolve_nonces ext self hs w = (Inr ns, w') \<Longrightarrow> length ns = length hs"
  by (induction hs arbitrary: w ns) (auto split: prod.splits sum.splits)

lemma get_chain_nonce_known:
  "known_transactions (snd (get_chain_nonce ext self addr s)) = known_transactions s"
  by (subst get_chain_nonce.simps)
     (simp add: lookup_forward ManagerWrapper_request_blocking_def on_world_eq
           split: option.splits prod.splits sum.splits)

lemma fold_max_Max:
  "fold max (ns :: int list) a = Max (set (a # ns))"
proof (induction ns arbitrary: a)
  case Nil
  then show ?case by simp
next
  case (Cons n ns)
  have "Max (insert (max n a) (set ns)) = Max (insert a (insert n (set ns)))"
    by (cases "set ns = {}") (simp_all add: max.commute max.left_commute)
  with Cons show ?case by (simp add: max.commute)
qed

lemma get_nonce_resolved:
  assumes chain: "get_chain_nonce ext self addr s = (Inr c, s1)"
    and h: "hashable addr"
    and res: "resolve_nonces ext self (known_transactions s (key_of addr)) (world s1) = (Inr ns, w2)"
  shows "get_nonce ext self addr s =
           (Inr (fold max (filter (\<lambda>n. c < n) ns) (max 0 c)),
            \<lparr>known_transactions =
               (known_transactions s)
                 (key_of addr :=
                    pruned c (known_transactions s (key_of addr)) ns
                      (known_transactions s (key_of addr))),
             world = w2\<rparr>)"
proof -
  have k: "known_transactions s1 = known_transactions s"
    using get_chain_nonce_known [of ext self addr s] chain by simp
  from res k have "resolve_nonces ext self (known_transactions s1 (key_of addr)) (world s1) = (Inr ns, w2)"
    by simp
  from get_nonces_and_cleanup_resolved [OF this, of addr c] chain h k show ?thesis
    by (subst get_nonce.simps) simp
qed

lemma get_nonce_returns:
  assumes "get_nonce ext self addr s = (Inr nonce, s')"
  shows "\<exists>c s1 ns. get_chain_nonce ext self addr s = (Inr c, s1) \<and> hashable addr
           \<and> resolve_nonces ext self (known_transactions s (key_of addr)) (world s1) =
               (Inr ns, world s')
           \<and> nonce = fold max (filter (\<lambda>n. c < n) ns) (max 0 c)
           \<and> known_transactions s' =
               (known_transactions s)
                 (key_of addr :=
                    pruned c (known_transactions s (key_of addr)) ns
                      (known_transactions s (key_of addr)))"
proof -
  obtain r s1 where chain: "get_chain_nonce ext self addr s = (r, s1)"
    by (cases "get_chain_nonce ext self addr s")
  have k: "known_transactions s1 = known_transactions s"
    using get_chain_nonce_known [of ext self addr s] chain by simp
  from assms chain obtain c tracked where c: "r = Inr c" and h: "hashable addr"
    and loop: "get_nonces_and_cleanup ext self addr c (known_transactions s1 (key_of addr)) s1 =
                 (Inr tracked, s')"
    and nonce: "nonce = fold max tracked (max 0 c)"
    by (subst (asm) get_nonce.simps) (auto split: sum.splits prod.splits if_splits)
  from get_nonces_and_cleanup_returns [OF loop] chain c h k nonce show ?thesis
    by auto
qed

lemma mock_to_decimal_values:
  "mock_to_decimal (JStr ''0x3'') = Inr 3"
  "mock_to_decimal (JStr ''0x5'') = Inr 5"
  "mock_to_decimal (JStr ''0x6'') = Inr 6"
  "mock_to_decimal (JStr ''0x7'') = Inr 7"
  "mock_to_decimal (JStr ''0x8'') = Inr 8"
  by (simp_all add: mock_to_decimal_def hex_value_def)

lemma mixin_chain_nonce_5:
  "get_chain_nonce mock_ext mixin_manager (JStr ''0xAA'') (tracking hs node_5) =
     (Inr 5, tracking hs node_5)"
  by (subst get_chain_nonce.simps)
     (simp add: lookup_forward ManagerWrapper_request_blocking_def on_world_eq mixin_manager_def
        mock_node_def node_5_def tracking_def mock_ext_def mock_to_decimal_values)

lemma wrapped_lookup_5:
  "wrapped_manager mixin_manager ''eth_getTransactionByHash'' [h] w =
     (case map_of (transactions w) h of Some txn \<Rightarrow> (Inr txn, w) | None \<Rightarrow> (Inr JNull, w))"
  by (simp add: mixin_manager_def mock_node_def)

lemma Max_insert_max:
  "finite S \<Longrightarrow> Max (insert (max a b) S) = Max (insert (a :: int) (insert b S))"
  by (cases "S = {}") (simp_all add: max.assoc)

lemma Max_unconfirmed:
  "Max (set (0 # c # filter (\<lambda>n. c < n) ns)) = Max (set (0 # c # (ns :: int list)))"
  (is "Max ?A = Max ?B")
proof -
  have fin: "finite ?A" "?A \<noteq> {}" "finite ?B" "?B \<noteq> {}"
    by simp_all
  have "Max ?A \<le> x \<longleftrightarrow> Max ?B \<le> x" for x
    unfolding Max_le_iff [OF fin(1,2)] Max_le_iff [OF fin(3,4)] by fastforce
  from this [of "Max ?A"] this [of "Max ?B"] show ?thesis
    by (simp add: order_antisym del: set_simps Max_insert)
qed

text \<open>
  Claim C1. When \<open>get_chain_nonce\<close> reports \<open>chainNonce\<close> and the hashes tracked under
  \<open>addr\<close> resolve to \<open>nonces\<close>, \<open>get_nonce\<close> returns the largest of 0, \<open>chainNonce\<close>
  and \<open>nonces\<close>; the nonces that are not above \<open>chainNonce\<close> (which the loop does
  not yield) make no difference to it. Whenever \<open>get_nonce\<close> returns, what it returns is
  at least the chain nonce. The witness is the example of the claim: chain nonce 5 and
  tracked nonces 6 and 8 give 8.
\<close>

theorem get_nonce_is_max:
  assumes "get_chain_nonce ext self addr s = (Inr chainNonce, s1)"
  shows "(hashable addr
          \<and> resolve_nonces ext self (known_transactions s (key_of addr)) (world s1) =
              (Inr nonces, w2)
          \<longrightarrow> fst (get_nonce ext self addr s) = Inr (Max (set (0 # chainNonce # nonces)))
            \<and> fst (get_nonce ext self addr s) =
                Inr (Max (set (0 # chainNonce # filter (\<lambda>n. chainNonce < n) nonces))))
       \<and> (\<forall>nonce s'. get_nonce ext self addr s = (Inr nonce, s') \<longrightarrow> chainNonce \<le> nonce)"
proof (intro conjI impI allI)
  assume a: "hashable addr
          \<and> resolve_nonces ext self (known_transactions s (key_of addr)) (world s1) =
              (Inr nonces, w2)"
  let ?unconfirmed = "filter (\<lambda>n. chainNonce < n) nonces"
  from a get_nonce_resolved [OF assms, of nonces w2]
  have r: "fst (get_nonce ext self addr s) = Inr (fold max ?unconfirmed (max 0 chainNonce))"
    by simp
  have m: "fold max ?unconfirmed (max 0 chainNonce) = Max (set (0 # chainNonce # ?unconfirmed))"
    by (simp add: fold_max_Max Max_insert_max del: Max_insert)
  from r m show "fst (get_nonce ext self addr s) =
                Inr (Max (set (0 # chainNonce # filter (\<lambda>n. chainNonce < n) nonces)))"
    by simp
  have "Max (set (0 # chainNonce # ?unconfirmed)) = Max (set (0 # chainNonce # nonces))"
    by (rule Max_unconfirmed)
  with r m show "fst (get_nonce ext self addr s) = Inr (Max (set (0 # chainNonce # nonces)))"
    by simp
next
  fix nonce s'
  assume "get_nonce ext self addr s = (Inr nonce, s')"
  from get_nonce_returns [OF this] assms obtain ns where
    "nonce = fold max (filter (\<lambda>n. chainNonce < n) ns) (max 0 chainNonce)"
    by auto
  then have "nonce = Max (set (max 0 chainNonce # filter (\<lambda>n. chainNonce < n) ns))"
    by (simp only: fold_max_Max)
  moreover have "max 0 chainNonce \<le> Max (set (max 0 chainNonce # filter (\<lambda>n. chainNonce < n) ns))"
    by (rule Max_ge) auto
  ultimately show "chainNonce \<le> nonce" by linarith
qed

theorem get_nonce_is_max_witness:
  "get_chain_nonce mock_ext mixin_manager (JStr ''0xAA'')
      (tracking [JStr ''0xh6'', JStr ''0xh8''] node_5)
     = (Inr 5, tracking [JStr ''0xh6'', JStr ''0xh8''] node_5)
   \<and> resolve_nonces mock_ext mixin_manager [JStr ''0xh6'', JStr ''0xh8''] node_5
       = (Inr [6, 8], node_5)
   \<and> fst (get_nonce mock_ext mixin_manager (JStr ''0xAA'')
            (tracking [JStr ''0xh6'', JStr ''0xh8''] node_5)) = Inr 8"
proof -
  let ?s = "tracking [JStr ''0xh6'', JStr ''0xh8''] node_5"
  have c: "get_chain_nonce mock_ext mixin_manager (JStr ''0xAA'') ?s = (Inr 5, ?s)"
    by (rule mixin_chain_nonce_5)
  have r: "resolve_nonces mock_ext mixin_manager [JStr ''0xh6'', JStr ''0xh8''] node_5
             = (Inr [6, 8], node_5)"
    by (simp add: wrapped_lookup_5 node_5_def getitem_def mock_ext_def mock_to_decimal_values)
  have h: "hashable (JStr ''0xAA'')
          \<and> resolve_nonces mock_ext mixin_manager
               (known_transactions ?s (key_of (JStr ''0xAA''))) (world ?s) = (Inr [6, 8], node_5)"
    using r by (simp add: tracking_def)
  from get_nonce_is_max [OF c, THEN conjunct1, THEN mp, OF h, THEN conjunct1] c r
  show ?thesis by simp
qed

text \<open>
  Claim C2 does not hold of the code. When at least one tracked transaction is
  unconfirmed (its resolved nonce is above the chain nonce), \<open>get_nonce\<close> returns the
  largest unconfirmed nonce itself, not a greater one: the nonce it hands out is the
  nonce of a transaction that is still outstanding.
\<close>

theorem get_nonce_returns_unconfirmed_nonce:
  assumes "get_chain_nonce ext self addr s = (Inr chainNonce, s1)"
    and "0 \<le> chainNonce"
    and "hashable addr"
    and "resolve_nonces ext self (known_transactions s (key_of addr)) (world s1) = (Inr nonces, w2)"
    and "\<exists>n\<in>set nonces. chainNonce < n"
  shows "fst (get_nonce ext self addr s) = Inr (Max {n \<in> set nonces. chainNonce < n})
       \<and> Max {n \<in> set nonces. chainNonce < n} \<in> set nonces
       \<and> chainNonce < Max {n \<in> set nonces. chainNonce < n}"
proof -
  let ?U = "{n \<in> set nonces. chainNonce < n}"
  have fin: "finite ?U" and ne: "?U \<noteq> {}"
    using assms(5) by auto
  have mem: "Max ?U \<in> ?U"
    using fin ne by (rule Max_in)
  have "fst (get_nonce ext self addr s) =
          Inr (fold max (filter (\<lambda>n. chainNonce < n) nonces) (max 0 chainNonce))"
    using get_nonce_resolved [OF assms(1) assms(3) assms(4)] by simp
  also have "fold max (filter (\<lambda>n. chainNonce < n) nonces) (max 0 chainNonce) =
               Max (insert chainNonce ?U)"
    using assms(2) by (simp add: fold_max_Max max_absorb2 del: Max_insert)
  also have "Max (insert chainNonce ?U) = Max ?U"
  proof -
    have "Max (insert chainNonce ?U) = max chainNonce (Max ?U)"
      using fin ne by (rule Max_insert)
    with mem show ?thesis by simp
  qed
  finally show ?thesis using mem by simp
qed

theorem get_nonce_returns_unconfirmed_nonce_witness:
  "resolve_nonces mock_ext mixin_manager [JStr ''0xh7''] node_5 = (Inr [7], node_5)
   \<and> fst (get_nonce mock_ext mixin_manager (JStr ''0xAA'') (tracking [JStr ''0xh7''] node_5))
       = Inr 7"
proof -
  let ?s = "tracking [JStr ''0xh7''] node_5"
  have c: "get_chain_nonce mock_ext mixin_manager (JStr ''0xAA'') ?s = (Inr 5, ?s)"
    by (rule mixin_chain_nonce_5)
  have r: "resolve_nonces mock_ext mixin_manager [JStr ''0xh7''] node_5 = (Inr [7], node_5)"
    by (simp add: wrapped_lookup_5 node_5_def getitem_def mock_ext_def mock_to_decimal_values)
  have r': "resolve_nonces mock_ext mixin_manager
              (known_transactions ?s (key_of (JStr ''0xAA''))) (world ?s) = (Inr [7], node_5)"
    using r by (simp add: tracking_def)
  have u: "\<exists>n\<in>set [7 :: int]. 5 < n"
    by simp
  have "{n \<in> set [7 :: int]. 5 < n} = {7}"
    by auto
  with get_nonce_returns_unconfirmed_nonce [OF c _ _ r' u] r
  show ?thesis by simp
qed

lemma pruned_subset: "set (pruned c hs ns xs) \<subseteq> set xs"
  by (auto simp: pruned_def)

lemma pruned_drops_confirmed:
  assumes "(h, n) \<in> set (zip hs ns)" and "n \<le> c"
  shows "key_of h \<notin> key_of ` set (pruned c hs ns xs)"
proof
  assume "key_of h \<in> key_of ` set (pruned c hs ns xs)"
  then obtain y where y: "y \<in> set (pruned c hs ns xs)" and eq: "key_of h = key_of y"
    by auto
  from y have "key_of y \<notin> key_of ` set (confirmed c hs ns)"
    by (simp add: pruned_def)
  moreover have "h \<in> set (confirmed c hs ns)"
    using assms by (force simp: confirmed_def)
  ultimately show False
    using eq by (metis image_eqI)
qed

text \<open>
  Claim C5. When \<open>get_nonce\<close> returns, it has observed a chain nonce \<open>c\<close> and resolved
  every hash tracked under \<open>addr\<close> to a nonce; the set tracked afterwards has no new
  member, and holds no hash that resolved to a nonce \<open>n \<le> c\<close> during the call.
\<close>

theorem get_nonce_prunes_confirmed:
  assumes "get_nonce ext self addr s = (Inr nonce, s')"
  shows "\<exists>c s1 ns.
           get_chain_nonce ext self addr s = (Inr c, s1)
         \<and> resolve_nonces ext self (known_transactions s (key_of addr)) (world s1) =
             (Inr ns, world s')
         \<and> length ns = length (known_transactions s (key_of addr))
         \<and> set (known_transactions s' (key_of addr)) \<subseteq> set (known_transactions s (key_of addr))
         \<and> (\<forall>(h, n) \<in> set (zip (known_transactions s (key_of addr)) ns).
               n \<le> c \<longrightarrow> h \<notin> set (known_transactions s' (key_of addr)))"
proof -
  from get_nonce_returns [OF assms] obtain c s1 ns where
    chain: "get_chain_nonce ext self addr s = (Inr c, s1)"
    and res: "resolve_nonces ext self (known_transactions s (key_of addr)) (world s1) =
                (Inr ns, world s')"
    and known: "known_transactions s' =
               (known_transactions s)
                 (key_of addr :=
                    pruned c (known_transactions s (key_of addr)) ns
                      (known_transactions s (key_of addr)))"
    by blast
  have len: "length ns = length (known_transactions s (key_of addr))"
    using res by (rule resolve_nonces_length)
  have sub: "set (known_transactions s' (key_of addr)) \<subseteq> set (known_transactions s (key_of addr))"
    unfolding known by (simp add: pruned_subset)
  have gone: "h \<notin> set (known_transactions s' (key_of addr))"
    if "(h, n) \<in> set (zip (known_transactions s (key_of addr)) ns)" and "n \<le> c" for h n
    using pruned_drops_confirmed [OF that, of "known_transactions s (key_of addr)"]
    unfolding known by auto
  from chain res len sub gone show ?thesis
    by blast
qed

theorem get_nonce_prunes_confirmed_witness:
  "fst (get_nonce mock_ext mixin_manager (JStr ''0xAA'')
          (tracking [JStr ''0xh3'', JStr ''0xh5'', JStr ''0xh6''] node_5)) = Inr 6
   \<and> JStr ''0xh3'' \<notin> set (known_transactions
        (snd (get_nonce mock_ext mixin_manager (JStr ''0xAA'')
                (tracking [JStr ''0xh3'', JStr ''0xh5'', JStr ''0xh6''] node_5))) (JStr ''0xAA''))
   \<and> JStr ''0xh5'' \<notin> set (known_transactions
        (snd (get_nonce mock_ext mixin_manager (JStr ''0xAA'')
                (tracking [JStr ''0xh3'', JStr ''0xh5'', JStr ''0xh6''] node_5))) (JStr ''0xAA''))"
proof -
  let ?hs = "[JStr ''0xh3'', JStr ''0xh5'', JStr ''0xh6'']"
  let ?s = "tracking ?hs node_5"
  have c: "get_chain_nonce mock_ext mixin_manager (JStr ''0xAA'') ?s = (Inr 5, ?s)"
    by (rule mixin_chain_nonce_5)
  have r: "resolve_nonces mock_ext mixin_manager ?hs node_5 = (Inr [3, 5, 6], node_5)"
    by (simp add: wrapped_lookup_5 node_5_def getitem_def mock_ext_def mock_to_decimal_values)
  have k: "known_transactions ?s (key_of (JStr ''0xAA'')) = ?hs" "world ?s = node_5"
    by (simp_all add: tracking_def)
  obtain nonce s' where g: "get_nonce mock_ext mixin_manager (JStr ''0xAA'') ?s = (Inr nonce, s')"
    and nonce: "nonce = 6"
    using get_nonce_resolved [OF c, of "[3, 5, 6]" node_5] r k by simp
  from get_nonce_prunes_confirmed [OF g] c r k
  have "\<forall>(h, n) \<in> set (zip ?hs [3, 5, 6 :: int]).
          n \<le> 5 \<longrightarrow> h \<notin> set (known_transactions s' (JStr ''0xAA''))"
    by auto
  with g nonce show ?thesis by simp
qed

section \<open>Building and sending a transaction\<close>

lemma hex_90000: "hex 90000 = ''0x15f90''"
  by (simp add: hex_def hex_digit_def)

lemma map_of_setdefault:
  "map_of (setdefault k v d) k' =
     (case map_of d k' of Some x \<Rightarrow> Some x | None \<Rightarrow> if k' = k then Some v else None)"
  by (auto simp: setdefault_def map_add_def key_in_dict split: option.splits)

lemma keys_setdefault: "fst ` set (setdefault k v d) = insert k (fst ` set d)"
  by (auto simp: setdefault_def)

lemma ManagerWrapper_request_blocking_eq:
  "wrapped_manager self method params (world s) = (r, w') \<Longrightarrow>
     ManagerWrapper_request_blocking self method params s = (r, s\<lparr>world := w'\<rparr>)"
  by (simp add: ManagerWrapper_request_blocking_def on_world_eq)

lemma construct_full_transaction_eq:
  assumes "map_of base ''from'' = Some txn_from"
    and "get_nonce ext self txn_from s = (Inr nonce, s1)"
    and "wrapped_manager self ''eth_gasPrice'' [] (world s1) = (Inr gas_price, w2)"
  shows "construct_full_transaction ext self (JObj base) s =
           (Inr (JObj
              (setdefault ''data'' (JStr '''')
                (setdefault ''to'' (JStr '''')
                  (setdefault ''value'' (JStr ''0x0'')
                    (setdefault ''gas'' (JStr ''0x15f90'')
                      (setdefault ''gasPrice'' gas_price
                        (setdefault ''nonce'' (JNum nonce) base))))))),
            s1\<lparr>world := w2\<rparr>)"
  using assms
  by (subst construct_full_transaction.simps)
     (simp add: getitem_def dict_copy_def lookup_forward ManagerWrapper_request_blocking_eq
        hex_90000)

text \<open>
  Claim C8. For a base transaction with a \<^verbatim>\<open>from\<close> field, where \<open>get_nonce\<close> of that
  address gives \<open>nonce\<close> and \<^verbatim>\<open>eth_gasPrice\<close> answers \<open>gas_price\<close>,
  \<open>construct_full_transaction\<close> returns a dict \<open>full\<close> in which every field of the base
  transaction has the value it had, each of the six other fields that is missing has
  its default (\<open>nonce\<close>, \<open>gas_price\<close>, \<^verbatim>\<open>0x15f90\<close> which is \<^verbatim>\<open>hex(90000)\<close>, \<^verbatim>\<open>0x0\<close>,
  the empty string twice), no other field is added, and all seven fields are present.
\<close>

theorem construct_full_transaction_defaults:
  assumes "map_of base ''from'' = Some txn_from"
    and "get_nonce ext self txn_from s = (Inr nonce, s1)"
    and "wrapped_manager self ''eth_gasPrice'' [] (world s1) = (Inr gas_price, w2)"
  shows "\<exists>full.
           construct_full_transaction ext self (JObj base) s = (Inr (JObj full), s1\<lparr>world := w2\<rparr>)
         \<and> (\<forall>k v. map_of base k = Some v \<longrightarrow> map_of full k = Some v)
         \<and> (map_of base ''nonce'' = None \<longrightarrow> map_of full ''nonce'' = Some (JNum nonce))
         \<and> (map_of base ''gasPrice'' = None \<longrightarrow> map_of full ''gasPrice'' = Some gas_price)
         \<and> (map_of base ''gas'' = None \<longrightarrow> map_of full ''gas'' = Some (JStr ''0x15f90''))
         \<and> (map_of base ''value'' = None \<longrightarrow> map_of full ''value'' = Some (JStr ''0x0''))
         \<and> (map_of base ''to'' = None \<longrightarrow> map_of full ''to'' = Some (JStr ''''))
         \<and> (map_of base ''data'' = None \<longrightarrow> map_of full ''data'' = Some (JStr ''''))
         \<and> fst ` set full =
             fst ` set base \<union> {''nonce'', ''gasPrice'', ''gas'', ''value'', ''to'', ''data''}
         \<and> {''from'', ''nonce'', ''gasPrice'', ''gas'', ''value'', ''to'', ''data''}
             \<subseteq> fst ` set full"
proof -
  let ?full = "setdefault ''data'' (JStr '''')
                (setdefault ''to'' (JStr '''')
                  (setdefault ''value'' (JStr ''0x0'')
                    (setdefault ''gas'' (JStr ''0x15f90'')
                      (setdefault ''gasPrice'' gas_price
                        (setdefault ''nonce'' (JNum nonce) base)))))"
  have eq: "construct_full_transaction ext self (JObj base) s =
              (Inr (JObj ?full), s1\<lparr>world := w2\<rparr>)"
    using assms by (rule construct_full_transaction_eq)
  have kept: "\<forall>k v. map_of base k = Some v \<longrightarrow> map_of ?full k = Some v"
    by (simp add: map_of_setdefault)
  have nonce: "map_of base ''nonce'' = None \<longrightarrow> map_of ?full ''nonce'' = Some (JNum nonce)"
    by (simp add: map_of_setdefault)
  have gasPrice: "map_of base ''gasPrice'' = None \<longrightarrow> map_of ?full ''gasPrice'' = Some gas_price"
    by (simp add: map_of_setdefault)
  have gas: "map_of base ''gas'' = None \<longrightarrow> map_of ?full ''gas'' = Some (JStr ''0x15f90'')"
    by (simp add: map_of_setdefault)
  have val: "map_of base ''value'' = None \<longrightarrow> map_of ?full ''value'' = Some (JStr ''0x0'')"
    by (simp add: map_of_setdefault)
  have to: "map_of base ''to'' = None \<longrightarrow> map_of ?full ''to'' = Some (JStr '''')"
    by (simp add: map_of_setdefault)
  have data: "map_of base ''data'' = None \<longrightarrow> map_of ?full ''data'' = Some (JStr '''')"
    by (simp add: map_of_setdefault)
  have keys: "fst ` set ?full =
             fst ` set base \<union> {''nonce'', ''gasPrice'', ''gas'', ''value'', ''to'', ''data''}"
    by (simp only: keys_setdefault Un_insert_right Un_empty_right insert_commute)
  have "''from'' \<in> fst ` set base"
    using assms(1) key_in_dict [of "''from''" base] by simp
  then have all: "{''from'', ''nonce'', ''gasPrice'', ''gas'', ''value'', ''to'', ''data''}
             \<subseteq> fst ` set ?full"
    by (simp only: keys insert_subset Un_iff insert_iff simp_thms empty_subsetI)
  show ?thesis
    by (intro exI [of _ ?full] conjI) (fact eq kept nonce gasPrice gas val to data keys all)+
qed

lemma mock_chain_nonce:
  assumes "pending_count w = JStr ''0x5''"
  shows "get_chain_nonce mock_ext mixin_manager addr (tracking hs w) = (Inr 5, tracking hs w)"
    and "get_chain_nonce mock_ext delegated_manager addr (tracking hs w) = (Inr 5, tracking hs w)"
  using assms
  by (subst get_chain_nonce.simps,
      simp add: lookup_forward ManagerWrapper_request_blocking_def on_world_eq mixin_manager_def
        delegated_manager_def DelegatedSigningManager_get_chain_nonce_def mock_signer_def
        mock_node_def tracking_def mock_ext_def mock_to_decimal_values)+

lemma mock_lookup:
  "wrapped_manager mixin_manager ''eth_getTransactionByHash'' [h] w =
     (case map_of (transactions w) h of Some txn \<Rightarrow> (Inr txn, w) | None \<Rightarrow> (Inr JNull, w))"
  "wrapped_manager delegated_manager ''eth_getTransactionByHash'' [h] w =
     (case map_of (transactions w) h of Some txn \<Rightarrow> (Inr txn, w) | None \<Rightarrow> (Inr JNull, w))"
  by (simp_all add: mixin_manager_def delegated_manager_def mock_node_def)

lemma mock_gas_price:
  "wrapped_manager mixin_manager ''eth_gasPrice'' [] w = (Inr (JStr ''0x4a817c800''), w)"
  "wrapped_manager delegated_manager ''eth_gasPrice'' [] w = (Inr (JStr ''0x4a817c800''), w)"
  by (simp_all add: mixin_manager_def delegated_manager_def mock_node_def)

theorem construct_full_transaction_defaults_witness:
  "\<exists>full.
     fst (construct_full_transaction mock_ext mixin_manager
            (JObj [(''from'', JStr ''0xAA''), (''gas'', JStr ''0x5208'')]) (tracking [] node_5))
       = Inr (JObj full)
   \<and> map_of full ''from'' = Some (JStr ''0xAA'')
   \<and> map_of full ''gas'' = Some (JStr ''0x5208'')
   \<and> map_of full ''nonce'' = Some (JNum 5)
   \<and> map_of full ''gasPrice'' = Some (JStr ''0x4a817c800'')
   \<and> map_of full ''value'' = Some (JStr ''0x0'')
   \<and> map_of full ''to'' = Some (JStr '''')
   \<and> map_of full ''data'' = Some (JStr '''')"
proof -
  let ?base = "[(''from'', JStr ''0xAA''), (''gas'', JStr ''0x5208'')]"
  let ?s = "tracking [] node_5"
  have p: "pending_count node_5 = JStr ''0x5''"
    by (simp add: node_5_def)
  have r: "resolve_nonces mock_ext mixin_manager
             (known_transactions ?s (key_of (JStr ''0xAA''))) (world ?s) = (Inr [], node_5)"
    by (simp add: tracking_def)
  obtain s1 where g: "get_nonce mock_ext mixin_manager (JStr ''0xAA'') ?s = (Inr 5, s1)"
    and w: "world s1 = node_5"
    using get_nonce_resolved [OF mock_chain_nonce(1) [OF p] _ r] by simp
  have f: "map_of ?base ''from'' = Some (JStr ''0xAA'')"
    by simp
  have gp: "wrapped_manager mixin_manager ''eth_gasPrice'' [] (world s1) =
              (Inr (JStr ''0x4a817c800''), node_5)"
    by (simp add: w mock_gas_price)
  from construct_full_transaction_defaults [OF f g gp] obtain full where
    eq: "construct_full_transaction mock_ext mixin_manager (JObj ?base) ?s =
           (Inr (JObj full), s1\<lparr>world := node_5\<rparr>)"
    and kept: "\<forall>k v. map_of ?base k = Some v \<longrightarrow> map_of full k = Some v"
    and nonce: "map_of ?base ''nonce'' = None \<longrightarrow> map_of full ''nonce'' = Some (JNum 5)"
    and gasPrice: "map_of ?base ''gasPrice'' = None \<longrightarrow>
                     map_of full ''gasPrice'' = Some (JStr ''0x4a817c800'')"
    and val: "map_of ?base ''value'' = None \<longrightarrow> map_of full ''value'' = Some (JStr ''0x0'')"
    and to: "map_of ?base ''to'' = None \<longrightarrow> map_of full ''to'' = Some (JStr '''')"
    and data: "map_of ?base ''data'' = None \<longrightarrow> map_of full ''data'' = Some (JStr '''')"
    by (elim exE conjE) (rule that; assumption)
  have "map_of full ''from'' = Some (JStr ''0xAA'')" "map_of full ''gas'' = Some (JStr ''0x5208'')"
    using kept by simp_all
  moreover have "map_of full ''nonce'' = Some (JNum 5)"
    "map_of full ''gasPrice'' = Some (JStr ''0x4a817c800'')"
    "map_of full ''value'' = Some (JStr ''0x0'')"
    "map_of full ''to'' = Some (JStr '''')" "map_of full ''data'' = Some (JStr '''')"
    using nonce gasPrice val to data by simp_all
  ultimately show ?thesis
    using eq by (intro exI [of _ full]) simp
qed

lemma sign_and_serialize_transaction_known:
  "known_transactions (snd (sign_and_serialize_transaction ext self transaction s)) =
     known_transactions s"
  by (simp add: sign_and_serialize_transaction_def get_transaction_signature_def on_world_eq
        split: sum.splits option.splits prod.splits)

lemma send_raw_transaction_failed:
  assumes "wrapped_manager self ''eth_sendRawTransaction'' params (world s) = (Inl e, w')"
  shows "mixin_request_blocking ext self ''eth_sendRawTransaction'' params s =
           (Inl e, s\<lparr>world := w'\<rparr>)"
  using assms
  by (subst mixin_request_blocking.simps) (simp add: ManagerWrapper_request_blocking_eq)

lemma send_transaction_pipeline:
  assumes "construct_full_transaction ext self base_transaction s = (Inr full_transaction, s1)"
    and "sign_and_serialize_transaction ext self full_transaction s1 = (Inr raw, s2)"
    and "encode_hex ext raw = Inr hx"
  shows "mixin_request_blocking ext self ''eth_sendTransaction'' (base_transaction # rest) s =
           mixin_request_blocking ext self ''eth_sendRawTransaction'' [JStr hx] s2"
  using assms
  by (subst mixin_request_blocking.simps) simp

lemma construct_full_transaction_returns:
  assumes "construct_full_transaction ext self base_transaction s = (Inr full_transaction, s1)"
  shows "\<exists>txn_from nonce s0.
           getitem base_transaction ''from'' = Inr txn_from
         \<and> get_nonce ext self txn_from s = (Inr nonce, s0)
         \<and> known_transactions s1 = known_transactions s0"
  using assms
  by (subst (asm) construct_full_transaction.simps)
     (auto simp: lookup_forward ManagerWrapper_request_blocking_def on_world_eq
           split: sum.splits prod.splits)

lemma pruned_known_subset:
  "set (((known_transactions s)(k := pruned c hs ns (known_transactions s k))) a)
     \<subseteq> set (known_transactions s a)"
  by (simp add: pruned_subset)

lemma send_transaction_broadcast_failed:
  assumes c: "construct_full_transaction ext self base_transaction s = (Inr full_transaction, s1)"
    and sg: "sign_and_serialize_transaction ext self full_transaction s1 = (Inr raw, s2)"
    and hx: "encode_hex ext raw = Inr hx"
    and bc: "wrapped_manager self ''eth_sendRawTransaction'' [JStr hx] (world s2) = (Inl e, w3)"
  shows "mixin_request_blocking ext self ''eth_sendTransaction'' (base_transaction # rest) s =
           (Inl e, s2\<lparr>world := w3\<rparr>)"
  using send_transaction_pipeline [OF c sg hx, of rest] send_raw_transaction_failed [OF bc, of ext]
  by simp

text \<open>
  Claim C9, as the code has it. When the transaction has been built and signed and the
  forwarded \<^verbatim>\<open>eth_sendRawTransaction\<close> raises \<open>e\<close>, the call fails with \<open>e\<close> and no hash
  has been added to \<^verbatim>\<open>_known_transactions\<close>: every entry is a subset of what it was. The
  entries of other addresses are unchanged; the entry of the \<^verbatim>\<open>from\<close> address is what
  the \<open>get_nonce\<close> made while the transaction was built has left of it, the tracked
  hashes without those that resolved to a nonce at most the chain nonce.
\<close>

theorem broadcast_failure_only_prunes:
  assumes c: "construct_full_transaction ext self base_transaction s = (Inr full_transaction, s1)"
    and sg: "sign_and_serialize_transaction ext self full_transaction s1 = (Inr raw, s2)"
    and hx: "encode_hex ext raw = Inr hx"
    and bc: "wrapped_manager self ''eth_sendRawTransaction'' [JStr hx] (world s2) = (Inl e, w3)"
  shows "\<exists>s' txn_from chain_nonce s0 nonces w.
           mixin_request_blocking ext self ''eth_sendTransaction'' (base_transaction # rest) s =
             (Inl e, s')
         \<and> getitem base_transaction ''from'' = Inr txn_from
         \<and> get_chain_nonce ext self txn_from s = (Inr chain_nonce, s0)
         \<and> resolve_nonces ext self (known_transactions s (key_of txn_from)) (world s0) =
             (Inr nonces, w)
         \<and> known_transactions s' =
             (known_transactions s)
               (key_of txn_from :=
                  pruned chain_nonce (known_transactions s (key_of txn_from)) nonces
                    (known_transactions s (key_of txn_from)))
         \<and> (\<forall>a. set (known_transactions s' a) \<subseteq> set (known_transactions s a))"
proof -
  have run: "mixin_request_blocking ext self ''eth_sendTransaction'' (base_transaction # rest) s =
               (Inl e, s2\<lparr>world := w3\<rparr>)"
    using c sg hx bc by (rule send_transaction_broadcast_failed)
  from construct_full_transaction_returns [OF c] obtain txn_from nonce t where
    f: "getitem base_transaction ''from'' = Inr txn_from"
    and g: "get_nonce ext self txn_from s = (Inr nonce, t)"
    and k1: "known_transactions s1 = known_transactions t"
    by (elim exE conjE)
  from get_nonce_returns [OF g] obtain chain_nonce s0 nonces where
    ch: "get_chain_nonce ext self txn_from s = (Inr chain_nonce, s0)"
    and res: "resolve_nonces ext self (known_transactions s (key_of txn_from)) (world s0) =
                (Inr nonces, world t)"
    and kt: "known_transactions t =
               (known_transactions s)
                 (key_of txn_from :=
                    pruned chain_nonce (known_transactions s (key_of txn_from)) nonces
                      (known_transactions s (key_of txn_from)))"
    by (elim exE conjE)
  have k2: "known_transactions s2 = known_transactions s1"
    using sign_and_serialize_transaction_known [of ext self full_transaction s1] sg by simp
  have known: "known_transactions (s2\<lparr>world := w3\<rparr>) =
             (known_transactions s)
               (key_of txn_from :=
                  pruned chain_nonce (known_transactions s (key_of txn_from)) nonces
                    (known_transactions s (key_of txn_from)))"
    using k1 k2 kt by simp
  have sub: "\<forall>a. set (known_transactions (s2\<lparr>world := w3\<rparr>) a) \<subseteq> set (known_transactions s a)"
    unfolding known by (rule allI) (rule pruned_known_subset)
  show ?thesis
    by (intro exI conjI) (fact run f ch res known sub)+
qed

lemma mock_sign_and_serialize:
  assumes "getitem transaction ''from'' = Inr txn_from"
  shows "sign_and_serialize_transaction mock_ext delegated_manager transaction s =
           (Inr ''f85161'', s)"
  using assms
  by (simp add: sign_and_serialize_transaction_def get_transaction_signature_def on_world_eq
        DelegatedSigningManager_get_transaction_signature_def delegated_manager_def mock_ext_def
        mock_signer_def)

lemma mock_construct:
  assumes p: "pending_count w = JStr ''0x5''"
    and r: "resolve_nonces mock_ext delegated_manager hs w = (Inr ns, w)"
  shows "construct_full_transaction mock_ext delegated_manager
           (JObj [(''from'', JStr ''0xAA'')]) (tracking hs w) =
           (Inr (JObj [(''from'', JStr ''0xAA''),
                       (''nonce'', JNum (fold max (filter (\<lambda>n. 5 < n) ns) 5)),
                       (''gasPrice'', JStr ''0x4a817c800''), (''gas'', JStr ''0x15f90''),
                       (''value'', JStr ''0x0''), (''to'', JStr ''''), (''data'', JStr '''')]),
            \<lparr>known_transactions =
               (known_transactions (tracking hs w))(JStr ''0xAA'' := pruned 5 hs ns hs),
             world = w\<rparr>)"
proof -
  let ?s = "tracking hs w"
  have r': "resolve_nonces mock_ext delegated_manager
              (known_transactions ?s (key_of (JStr ''0xAA''))) (world ?s) = (Inr ns, w)"
    using r by (simp add: tracking_def)
  have g: "get_nonce mock_ext delegated_manager (JStr ''0xAA'') ?s =
             (Inr (fold max (filter (\<lambda>n. 5 < n) ns) 5),
              \<lparr>known_transactions =
                 (known_transactions ?s)(JStr ''0xAA'' := pruned 5 hs ns hs),
               world = w\<rparr>)"
    using get_nonce_resolved [OF mock_chain_nonce(2) [OF p] _ r'] by (simp add: tracking_def)
  have f: "map_of [(''from'', JStr ''0xAA'')] ''from'' = Some (JStr ''0xAA'')"
    by simp
  show ?thesis
    using construct_full_transaction_eq [OF f g, of "JStr ''0x4a817c800''" w]
    by (simp add: mock_gas_price setdefault_def)
qed

text \<open>
  Claim C9 as stated has \<^verbatim>\<open>_known_transactions\<close> left exactly as it was. With \<^verbatim>\<open>0xh3\<close>
  (nonce 3) tracked under \<^verbatim>\<open>0xAA\<close> and a chain nonce of 5, the transaction is built and
  signed, the broadcast is refused, and \<^verbatim>\<open>0xh3\<close> is no longer tracked: line 150 has
  called \<open>get_nonce\<close>, which pruned it, before the broadcast.
\<close>

theorem broadcast_failure_prunes_counterexample:
  "known_transactions (tracking [JStr ''0xh3''] node_5_rejecting) (JStr ''0xAA'') = [JStr ''0xh3'']
   \<and> fst (sign_and_serialize_transaction mock_ext delegated_manager
            (JObj [(''from'', JStr ''0xAA''), (''nonce'', JNum 5),
                   (''gasPrice'', JStr ''0x4a817c800''), (''gas'', JStr ''0x15f90''),
                   (''value'', JStr ''0x0''), (''to'', JStr ''''), (''data'', JStr '''')])
            (snd (construct_full_transaction mock_ext delegated_manager
                    (JObj [(''from'', JStr ''0xAA'')]) (tracking [JStr ''0xh3''] node_5_rejecting))))
       = Inr ''f85161''
   \<and> fst (mixin_request_blocking mock_ext delegated_manager ''eth_sendTransaction''
            [JObj [(''from'', JStr ''0xAA'')]] (tracking [JStr ''0xh3''] node_5_rejecting))
       = Inl (ValueError (JStr ''insufficient funds''))
   \<and> known_transactions
        (snd (mixin_request_blocking mock_ext delegated_manager ''eth_sendTransaction''
                [JObj [(''from'', JStr ''0xAA'')]] (tracking [JStr ''0xh3''] node_5_rejecting)))
        (JStr ''0xAA'') = []"
proof -
  let ?s = "tracking [JStr ''0xh3''] node_5_rejecting"
  let ?full = "JObj [(''from'', JStr ''0xAA''), (''nonce'', JNum 5),
                   (''gasPrice'', JStr ''0x4a817c800''), (''gas'', JStr ''0x15f90''),
                   (''value'', JStr ''0x0''), (''to'', JStr ''''), (''data'', JStr '''')]"
  let ?s1 = "\<lparr>known_transactions =
               (known_transactions ?s)(JStr ''0xAA'' := pruned 5 [JStr ''0xh3''] [3] [JStr ''0xh3'']),
             world = node_5_rejecting\<rparr>"
  have p: "pending_count node_5_rejecting = JStr ''0x5''"
    by (simp add: node_5_rejecting_def node_5_def)
  have r: "resolve_nonces mock_ext delegated_manager [JStr ''0xh3''] node_5_rejecting =
             (Inr [3], node_5_rejecting)"
    by (simp add: mock_lookup node_5_rejecting_def node_5_def getitem_def mock_ext_def
        mock_to_decimal_values)
  have c: "construct_full_transaction mock_ext delegated_manager
             (JObj [(''from'', JStr ''0xAA'')]) ?s = (Inr ?full, ?s1)"
    using mock_construct [OF p r] by simp
  have sg: "sign_and_serialize_transaction mock_ext delegated_manager ?full ?s1 =
              (Inr ''f85161'', ?s1)"
    by (rule mock_sign_and_serialize [of _ "JStr ''0xAA''"]) (simp add: getitem_def)
  have hx: "encode_hex mock_ext ''f85161'' = Inr ''0xf85161''"
    by (simp add: mock_ext_def)
  have bc: "wrapped_manager delegated_manager ''eth_sendRawTransaction'' [JStr ''0xf85161'']
              (world ?s1) = (Inl (ValueError (JStr ''insufficient funds'')), node_5_rejecting)"
    by (simp add: delegated_manager_def mock_node_def node_5_rejecting_def)
  have run: "mixin_request_blocking mock_ext delegated_manager ''eth_sendTransaction''
               [JObj [(''from'', JStr ''0xAA'')]] ?s =
               (Inl (ValueError (JStr ''insufficient funds'')), ?s1\<lparr>world := node_5_rejecting\<rparr>)"
    using c sg hx bc by (rule send_transaction_broadcast_failed)
  have gone: "pruned 5 [JStr ''0xh3''] [3] [JStr ''0xh3''] = []"
    by (simp add: pruned_def confirmed_def)
  have before: "known_transactions ?s (JStr ''0xAA'') = [JStr ''0xh3'']"
    by (simp add: tracking_def)
  have signed: "fst (sign_and_serialize_transaction mock_ext delegated_manager ?full
                  (snd (construct_full_transaction mock_ext delegated_manager
                          (JObj [(''from'', JStr ''0xAA'')]) ?s))) = Inr ''f85161''"
    by (simp only: c sg fst_conv snd_conv)
  have failed: "fst (mixin_request_blocking mock_ext delegated_manager ''eth_sendTransaction''
                  [JObj [(''from'', JStr ''0xAA'')]] ?s) = Inl (ValueError (JStr ''insufficient funds''))"
    by (simp only: run fst_conv)
  have after: "known_transactions
        (snd (mixin_request_blocking mock_ext delegated_manager ''eth_sendTransaction''
                [JObj [(''from'', JStr ''0xAA'')]] ?s)) (JStr ''0xAA'') = []"
    by (simp add: run gone)
  from before signed failed after show ?thesis
    by (intro conjI)
qed

theorem broadcast_failure_only_prunes_witness:
  "fst (mixin_request_blocking mock_ext delegated_manager ''eth_sendTransaction''
            [JObj [(''from'', JStr ''0xAA'')]]
            (tracking [JStr ''0xh5'', JStr ''0xh6''] node_5_rejecting))
       = Inl (ValueError (JStr ''insufficient funds''))
   \<and> known_transactions
        (snd (mixin_request_blocking mock_ext delegated_manager ''eth_sendTransaction''
                [JObj [(''from'', JStr ''0xAA'')]]
                (tracking [JStr ''0xh5'', JStr ''0xh6''] node_5_rejecting)))
      = (known_transactions (tracking [JStr ''0xh5'', JStr ''0xh6''] node_5_rejecting))
          (JStr ''0xAA'' := [JStr ''0xh6''])"
proof -
  let ?hs = "[JStr ''0xh5'', JStr ''0xh6'']"
  let ?s = "tracking ?hs node_5_rejecting"
  let ?full = "JObj [(''from'', JStr ''0xAA''), (''nonce'', JNum 6),
                   (''gasPrice'', JStr ''0x4a817c800''), (''gas'', JStr ''0x15f90''),
                   (''value'', JStr ''0x0''), (''to'', JStr ''''), (''data'', JStr '''')]"
  let ?s1 = "\<lparr>known_transactions =
               (known_transactions ?s)(JStr ''0xAA'' := pruned 5 ?hs [5, 6] ?hs),
             world = node_5_rejecting\<rparr>"
  have p: "pending_count node_5_rejecting = JStr ''0x5''"
    by (simp add: node_5_rejecting_def node_5_def)
  have r: "resolve_nonces mock_ext delegated_manager ?hs node_5_rejecting =
             (Inr [5, 6], node_5_rejecting)"
    by (simp add: mock_lookup node_5_rejecting_def node_5_def getitem_def mock_ext_def
        mock_to_decimal_values)
  have c: "construct_full_transaction mock_ext delegated_manager
             (JObj [(''from'', JStr ''0xAA'')]) ?s = (Inr ?full, ?s1)"
    using mock_construct [OF p r] by simp
  have sg: "sign_and_serialize_transaction mock_ext delegated_manager ?full ?s1 =
              (Inr ''f85161'', ?s1)"
    by (rule mock_sign_and_serialize [of _ "JStr ''0xAA''"]) (simp add: getitem_def)
  have hx: "encode_hex mock_ext ''f85161'' = Inr ''0xf85161''"
    by (simp add: mock_ext_def)
  have bc: "wrapped_manager delegated_manager ''eth_sendRawTransaction'' [JStr ''0xf85161'']
              (world ?s1) = (Inl (ValueError (JStr ''insufficient funds'')), node_5_rejecting)"
    by (simp add: delegated_manager_def mock_node_def node_5_rejecting_def)
  have ch: "get_chain_nonce mock_ext delegated_manager (JStr ''0xAA'') ?s = (Inr 5, ?s)"
    by (rule mock_chain_nonce(2) [OF p])
  have k: "known_transactions ?s (JStr ''0xAA'') = ?hs" "world ?s = node_5_rejecting"
    by (simp_all add: tracking_def)
  from broadcast_failure_only_prunes [OF c sg hx bc, of "[]"]
  obtain s' txn_from chain_nonce s0 nonces w where
    run: "mixin_request_blocking mock_ext delegated_manager ''eth_sendTransaction''
            [JObj [(''from'', JStr ''0xAA'')]] ?s = (Inl (ValueError (JStr ''insufficient funds'')), s')"
    and f: "getitem (JObj [(''from'', JStr ''0xAA'')]) ''from'' = Inr txn_from"
    and ch': "get_chain_nonce mock_ext delegated_manager txn_from ?s = (Inr chain_nonce, s0)"
    and res: "resolve_nonces mock_ext delegated_manager
                (known_transactions ?s (key_of txn_from)) (world s0) = (Inr nonces, w)"
    and known: "known_transactions s' =
             (known_transactions ?s)
               (key_of txn_from :=
                  pruned chain_nonce (known_transactions ?s (key_of txn_from)) nonces
                    (known_transactions ?s (key_of txn_from)))"
    by (elim exE conjE)
  from f have tf: "txn_from = JStr ''0xAA''"
    by (simp add: getitem_def)
  from ch' ch tf have cn: "chain_nonce = 5" "s0 = ?s"
    by simp_all
  from res r tf cn k have ns: "nonces = [5, 6]"
    by simp
  have "pruned 5 ?hs [5, 6] ?hs = [JStr ''0xh6'']"
    by (simp add: pruned_def confirmed_def)
  with known tf cn ns k have "known_transactions s' =
      (known_transactions ?s)(JStr ''0xAA'' := [JStr ''0xh6''])"
    by simp
  with run show ?thesis by simp
qed

section \<open>Interception of eth_sendTransaction\<close>

lemma forwards_refl [simp]: "forwards M s s"
  by (simp add: forwards_def)

lemma forwards_trans:
  assumes "forwards M s s1" and "forwards M s1 s2"
  shows "forwards M s s2"
proof -
  from assms obtain c1 c2 where
    "snd (world s1) = snd (world s) @ c1" "fst ` set c1 \<subseteq> M"
    "snd (world s2) = snd (world s1) @ c2" "fst ` set c2 \<subseteq> M"
    unfolding forwards_def by (elim exE conjE)
  then have "snd (world s2) = snd (world s) @ (c1 @ c2) \<and> fst ` set (c1 @ c2) \<subseteq> M"
    by (simp add: image_Un)
  then show ?thesis
    unfolding forwards_def by (rule exI)
qed

lemma forwards_same_log: "snd (world s') = snd (world s) \<Longrightarrow> forwards M s s'"
  by (simp add: forwards_def)

lemma forwards_known [simp]:
  "forwards M (s\<lparr>known_transactions := k\<rparr>) s' = forwards M s s'"
  "forwards M s (s'\<lparr>known_transactions := k\<rparr>) = forwards M s s'"
  by (simp_all add: forwards_def)

lemma forwards_bind:
  assumes "forwards M s (snd p)"
    and "\<And>x s1. forwards M s1 (snd (g x s1))"
  shows "forwards M s (snd (case p of (Inl e, s1) \<Rightarrow> (Inl e, s1) | (Inr x, s1) \<Rightarrow> g x s1))"
proof (cases p)
  case (Pair r s1)
  with assms(1) have a: "forwards M s s1" by simp
  show ?thesis
  proof (cases r)
    case (Inl e)
    with Pair a show ?thesis by simp
  next
    case (Inr x)
    with Pair show ?thesis
      using forwards_trans [OF a assms(2) [of s1 x]] by simp
  qed
qed

lemma forwards_sum:
  assumes "\<And>x. forwards M s (snd (g x))"
  shows "forwards M s (snd (case r of Inl e \<Rightarrow> (Inl e, s) | Inr x \<Rightarrow> g x))"
  using assms by (cases r) simp_all

lemma forwards_if:
  assumes "forwards M s (snd a)" and "forwards M s (snd b)"
  shows "forwards M s (snd (if c then a else b))"
  using assms by simp

lemma forwards_wrapped:
  assumes "method \<in> M"
  shows "forwards M s (snd (ManagerWrapper_request_blocking (logged self) method params s))"
  using assms
  by (cases "world s")
     (simp add: ManagerWrapper_request_blocking_def on_world_eq logged_def forwards_def
        split: prod.splits)

lemma forwards_lookup:
  assumes "''eth_getTransactionByHash'' \<in> M"
  shows "forwards M s (snd (mixin_request_blocking ext (logged self) ''eth_getTransactionByHash'' params s))"
  using assms by (simp add: lookup_forward forwards_wrapped)

lemma signature_keeps_second:
  assumes "\<And>m p x. snd (snd (sm m p x)) = snd x"
  shows "snd (snd (DelegatedSigningManager_get_transaction_signature ext sm transaction x)) = snd x"
proof -
  have step: "sm m p y = (r, z) \<Longrightarrow> snd z = snd y" for m p y r z
    using assms [of m p y] by simp
  show ?thesis
    unfolding DelegatedSigningManager_get_transaction_signature_def
    by (auto split: sum.splits prod.splits dest!: step)
qed

lemma forwards_signature:
  "forwards M s (snd (get_transaction_signature ext (logged self) transaction s))"
proof (cases "signature_manager self")
  case None
  then show ?thesis
    by (simp add: get_transaction_signature_def logged_def)
next
  case (Some sm)
  let ?sm = "\<lambda>method params (w, log). case sm method params w of (r, w') \<Rightarrow> (r, (w', log :: call_log))"
  have "snd (snd (?sm m p x)) = snd x" for m p x
    by (cases x) (simp split: prod.splits)
  from signature_keeps_second [of ?sm, OF this] Some show ?thesis
    by (intro forwards_same_log) (simp add: get_transaction_signature_def logged_def on_world_eq)
qed

lemma forwards_sign_and_serialize:
  "forwards M s (snd (sign_and_serialize_transaction ext (logged self) transaction s))"
  unfolding sign_and_serialize_transaction_def
  by (intro forwards_sum forwards_bind forwards_signature) simp_all

lemma forwards_chain_nonce:
  assumes "''eth_getTransactionCount'' \<in> M"
  shows "forwards M s (snd (get_chain_nonce ext (logged self) addr s))"
proof (cases "signature_manager self")
  case None
  then have "signature_manager (logged self) = None"
    by (simp add: logged_def)
  then show ?thesis
    using assms
    by (subst get_chain_nonce.simps)
       (simp add: lookup_forward, intro forwards_bind forwards_sum forwards_wrapped, simp_all)
next
  case (Some sm)
  then show ?thesis
    using assms
    by (cases "world s", subst get_chain_nonce.simps)
       (auto simp: logged_def on_world_eq forwards_def DelegatedSigningManager_get_chain_nonce_def
          split: sum.splits prod.splits)
qed

lemma forwards_cleanup:
  assumes "''eth_getTransactionByHash'' \<in> M"
  shows "forwards M s (snd (get_nonces_and_cleanup ext (logged self) addr c hs s))"
proof (induction hs arbitrary: s)
  case Nil
  show ?case by (simp add: get_nonces_and_cleanup.simps)
next
  case (Cons h hs)
  have discard: "forwards M s
      (snd (get_nonces_and_cleanup ext (logged self) addr c hs (s\<lparr>known_transactions := k\<rparr>)))"
    for s k
    using Cons.IH [of "s\<lparr>known_transactions := k\<rparr>"] by simp
  show ?case
    by (subst get_nonces_and_cleanup.simps)
       (intro forwards_bind forwards_sum forwards_if forwards_lookup assms discard Cons.IH;
        simp?)
qed

lemma forwards_get_nonce:
  assumes "''eth_getTransactionCount'' \<in> M" and "''eth_getTransactionByHash'' \<in> M"
  shows "forwards M s (snd (get_nonce ext (logged self) addr s))"
  by (subst get_nonce.simps)
     (intro forwards_bind forwards_if forwards_chain_nonce forwards_cleanup assms; simp?)

lemma forwards_construct:
  assumes "''eth_getTransactionCount'' \<in> M" and "''eth_getTransactionByHash'' \<in> M"
    and "''eth_gasPrice'' \<in> M"
  shows "forwards M s (snd (construct_full_transaction ext (logged self) base_transaction s))"
  by (subst construct_full_transaction.simps, simp only: lookup_forward)
     (intro forwards_bind forwards_sum forwards_get_nonce forwards_wrapped assms; simp?)

lemma forwards_tracked:
  assumes "method \<noteq> ''eth_sendTransaction''" and "method \<in> M"
    and "''eth_getTransactionByHash'' \<in> M"
  shows "forwards M s (snd (mixin_request_blocking ext (logged self) method params s))"
  using assms(1)
  by (subst mixin_request_blocking.simps, simp only: if_False)
     (intro forwards_bind forwards_sum forwards_if forwards_lookup forwards_wrapped assms; simp?)

lemma forwards_send_transaction:
  assumes "''eth_getTransactionCount'' \<in> M" and "''eth_getTransactionByHash'' \<in> M"
    and "''eth_gasPrice'' \<in> M" and "''eth_sendRawTransaction'' \<in> M"
  shows "forwards M s (snd (mixin_request_blocking ext (logged self) ''eth_sendTransaction'' params s))"
proof (cases params)
  case Nil
  then show ?thesis
    by (subst mixin_request_blocking.simps) simp
next
  case (Cons base_transaction rest)
  have raw: "\<And>p s. forwards M s
      (snd (mixin_request_blocking ext (logged self) ''eth_sendRawTransaction'' p s))"
    by (rule forwards_tracked) (simp_all add: assms)
  from Cons show ?thesis
    by (subst mixin_request_blocking.simps, simp only: if_True list.case refl)
       (intro forwards_bind forwards_sum forwards_construct forwards_sign_and_serialize raw assms;
        simp?)
qed

lemma send_tracked:
  assumes "method \<in> TXN_SENDING_METHODS" and "method \<noteq> ''eth_sendTransaction''"
    and "wrapped_manager self method params (world s) = (Inr result, w1)"
    and "wrapped_manager self ''eth_getTransactionByHash'' [result] w1 = (Inr txn, w2)"
    and "getitem txn ''from'' = Inr txn_from"
    and "hashable txn_from" and "hashable result"
  shows "mixin_request_blocking ext self method params s =
           (Inr result,
            \<lparr>known_transactions =
               (known_transactions s)
                 (key_of txn_from := set_add result (known_transactions s (key_of txn_from))),
             world = w2\<rparr>)"
  using assms
  by (subst mixin_request_blocking.simps)
     (simp add: lookup_forward ManagerWrapper_request_blocking_eq)

text \<open>
  Claim C6. First: once the full transaction is built from \<^verbatim>\<open>params[0]\<close>, signed and
  serialised, and hex-encoded to \<open>hx\<close>, a call of \<^verbatim>\<open>eth_sendTransaction\<close> is the call of
  \<^verbatim>\<open>eth_sendRawTransaction\<close> with \<open>[hx]\<close>, whose outcome it returns. Second: whatever a
  call of \<^verbatim>\<open>eth_sendTransaction\<close> does, the calls it forwards to the wrapped manager are
  calls of \<^verbatim>\<open>eth_getTransactionCount\<close>, \<^verbatim>\<open>eth_getTransactionByHash\<close>, \<^verbatim>\<open>eth_gasPrice\<close>
  and \<^verbatim>\<open>eth_sendRawTransaction\<close>, never of \<^verbatim>\<open>eth_sendTransaction\<close> itself. Third: a
  forwarded call of a transaction-sending method (any of the four but
  \<^verbatim>\<open>eth_sendTransaction\<close>, which is not forwarded) that returns \<open>result\<close> looks \<open>result\<close>
  up with \<^verbatim>\<open>eth_getTransactionByHash\<close> and adds it to the set tracked under the \<^verbatim>\<open>from\<close>
  address the lookup reports.
\<close>

theorem send_transaction_intercepted:
  "(params = base_transaction # rest
      \<and> construct_full_transaction ext self base_transaction s = (Inr full_transaction, s1)
      \<and> sign_and_serialize_transaction ext self full_transaction s1 = (Inr raw, s2)
      \<and> encode_hex ext raw = Inr hx
    \<longrightarrow> mixin_request_blocking ext self ''eth_sendTransaction'' params s =
          mixin_request_blocking ext self ''eth_sendRawTransaction'' [JStr hx] s2)
   \<and> (\<exists>calls.
         snd (world (snd (mixin_request_blocking ext (logged self) ''eth_sendTransaction''
                            params l))) = snd (world l) @ calls
       \<and> fst ` set calls \<subseteq>
           {''eth_getTransactionCount'', ''eth_getTransactionByHash'', ''eth_gasPrice'',
            ''eth_sendRawTransaction''}
       \<and> ''eth_sendTransaction'' \<notin> fst ` set calls)
   \<and> (method \<in> TXN_SENDING_METHODS \<and> method \<noteq> ''eth_sendTransaction''
      \<and> wrapped_manager self method params (world s) = (Inr result, w1)
      \<and> wrapped_manager self ''eth_getTransactionByHash'' [result] w1 = (Inr txn, w2)
      \<and> getitem txn ''from'' = Inr txn_from \<and> hashable txn_from \<and> hashable result
    \<longrightarrow> mixin_request_blocking ext self method params s =
          (Inr result,
           \<lparr>known_transactions =
              (known_transactions s)
                (key_of txn_from := set_add result (known_transactions s (key_of txn_from))),
            world = w2\<rparr>))"
proof (intro conjI impI)
  assume "params = base_transaction # rest
      \<and> construct_full_transaction ext self base_transaction s = (Inr full_transaction, s1)
      \<and> sign_and_serialize_transaction ext self full_transaction s1 = (Inr raw, s2)
      \<and> encode_hex ext raw = Inr hx"
  then show "mixin_request_blocking ext self ''eth_sendTransaction'' params s =
          mixin_request_blocking ext self ''eth_sendRawTransaction'' [JStr hx] s2"
    using send_transaction_pipeline [of ext self base_transaction s full_transaction s1 raw s2 hx rest]
    by simp
next
  let ?M = "{''eth_getTransactionCount'', ''eth_getTransactionByHash'', ''eth_gasPrice'',
            ''eth_sendRawTransaction''}"
  have "forwards ?M l
          (snd (mixin_request_blocking ext (logged self) ''eth_sendTransaction'' params l))"
    by (rule forwards_send_transaction) simp_all
  then obtain calls where
    c: "snd (world (snd (mixin_request_blocking ext (logged self) ''eth_sendTransaction''
                            params l))) = snd (world l) @ calls"
    and m: "fst ` set calls \<subseteq> ?M"
    unfolding forwards_def by (elim exE conjE)
  have "''eth_sendTransaction'' \<notin> ?M"
    by simp
  with m have "''eth_sendTransaction'' \<notin> fst ` set calls"
    by (rule_tac notI) (drule (1) subsetD, simp)
  with c m show "\<exists>calls.
         snd (world (snd (mixin_request_blocking ext (logged self) ''eth_sendTransaction''
                            params l))) = snd (world l) @ calls
       \<and> fst ` set calls \<subseteq> ?M
       \<and> ''eth_sendTransaction'' \<notin> fst ` set calls"
    by (intro exI [of _ calls] conjI)
next
  assume "method \<in> TXN_SENDING_METHODS \<and> method \<noteq> ''eth_sendTransaction''
      \<and> wrapped_manager self method params (world s) = (Inr result, w1)
      \<and> wrapped_manager self ''eth_getTransactionByHash'' [result] w1 = (Inr txn, w2)
      \<and> getitem txn ''from'' = Inr txn_from \<and> hashable txn_from \<and> hashable result"
  then show "mixin_request_blocking ext self method params s =
          (Inr result,
           \<lparr>known_transactions =
              (known_transactions s)
                (key_of txn_from := set_add result (known_transactions s (key_of txn_from))),
            world = w2\<rparr>)"
    using send_tracked [of "method" self params s result w1 txn w2 txn_from ext]
    by simp
qed

theorem send_transaction_intercepted_witness:
  "mixin_request_blocking mock_ext delegated_manager ''eth_sendTransaction''
     [JObj [(''from'', JStr ''0xAA'')]] (tracking [] node_5)
   = (Inr (JStr ''0xh6''), tracking [JStr ''0xh6''] node_5)"
proof -
  let ?base = "JObj [(''from'', JStr ''0xAA'')]"
  let ?s = "tracking [] node_5"
  let ?full = "JObj [(''from'', JStr ''0xAA''), (''nonce'', JNum 5),
                   (''gasPrice'', JStr ''0x4a817c800''), (''gas'', JStr ''0x15f90''),
                   (''value'', JStr ''0x0''), (''to'', JStr ''''), (''data'', JStr '''')]"
  have p: "pending_count node_5 = JStr ''0x5''"
    by (simp add: node_5_def)
  have r: "resolve_nonces mock_ext delegated_manager [] node_5 = (Inr [], node_5)"
    by simp
  have c: "construct_full_transaction mock_ext delegated_manager ?base ?s = (Inr ?full, ?s)"
    using mock_construct [OF p r] by (simp add: pruned_def tracking_def)
  have sg: "sign_and_serialize_transaction mock_ext delegated_manager ?full ?s =
              (Inr ''f85161'', ?s)"
    by (rule mock_sign_and_serialize [of _ "JStr ''0xAA''"]) (simp add: getitem_def)
  have hx: "encode_hex mock_ext ''f85161'' = Inr ''0xf85161''"
    by (simp add: mock_ext_def)
  have a: "[?base] = ?base # []
      \<and> construct_full_transaction mock_ext delegated_manager ?base ?s = (Inr ?full, ?s)
      \<and> sign_and_serialize_transaction mock_ext delegated_manager ?full ?s = (Inr ''f85161'', ?s)
      \<and> encode_hex mock_ext ''f85161'' = Inr ''0xf85161''"
    using c sg hx by simp
  have first: "mixin_request_blocking mock_ext delegated_manager ''eth_sendTransaction'' [?base] ?s =
          mixin_request_blocking mock_ext delegated_manager ''eth_sendRawTransaction''
            [JStr ''0xf85161''] ?s"
    by (rule send_transaction_intercepted [THEN conjunct1, THEN mp, OF a])
  have b: "''eth_sendRawTransaction'' \<in> TXN_SENDING_METHODS
      \<and> ''eth_sendRawTransaction'' \<noteq> ''eth_sendTransaction''
      \<and> wrapped_manager delegated_manager ''eth_sendRawTransaction'' [JStr ''0xf85161''] (world ?s) =
          (Inr (JStr ''0xh6''), node_5)
      \<and> wrapped_manager delegated_manager ''eth_getTransactionByHash'' [JStr ''0xh6''] node_5 =
          (Inr (JObj [(''nonce'', JStr ''0x6''), (''from'', JStr ''0xAA'')]), node_5)
      \<and> getitem (JObj [(''nonce'', JStr ''0x6''), (''from'', JStr ''0xAA'')]) ''from'' =
          Inr (JStr ''0xAA'')
      \<and> hashable (JStr ''0xAA'') \<and> hashable (JStr ''0xh6'')"
    by (simp add: TXN_SENDING_METHODS_def delegated_manager_def mock_node_def node_5_def
        tracking_def getitem_def)
  have second: "mixin_request_blocking mock_ext delegated_manager ''eth_sendRawTransaction''
            [JStr ''0xf85161''] ?s =
          (Inr (JStr ''0xh6''),
           \<lparr>known_transactions =
              (known_transactions ?s)
                (key_of (JStr ''0xAA'') :=
                   set_add (JStr ''0xh6'') (known_transactions ?s (key_of (JStr ''0xAA'')))),
            world = node_5\<rparr>)"
    by (rule send_transaction_intercepted [THEN conjunct2, THEN conjunct2, THEN mp, OF b])
  show ?thesis
    unfolding first second by (simp add: tracking_def set_add_def)
qed

end
